theory Spec2Isabelle
  imports Main
begin

section \<open>The Zynk e-mail dashboard (src/dashboard.js) as state-passing functions\<close>

text \<open>
  The class \<^verbatim>\<open>EmailDashboard\<close> keeps four fields of its own and otherwise works on the
  document of the dashboard page. Both are put into one record, \<open>page\<close>. Every
  method becomes a function from a page to an outcome and the page it leaves behind; an
  exception keeps the mutations made before it was thrown.

  Conventions of the embedding:
  \<^item> a JavaScript string is a \<open>string\<close>; a property that may be \<^verbatim>\<open>undefined\<close> is a
    \<open>string option\<close> with \<open>None\<close> for \<^verbatim>\<open>undefined\<close>;
  \<^item> an object used as a dictionary is an association list in the iteration order of
    \<^verbatim>\<open>Object.keys\<close>, read with \<open>map_of\<close>;
  \<^item> an element that the page's HTML defines is a group of record fields named after
    its id; \<^verbatim>\<open>#emailsGrid\<close>, which the script looks up and the HTML does not define,
    is an \<open>option\<close>;
  \<^item> \<^verbatim>\<open>toLocaleDateString\<close>, whose result depends on the browser's locale data, is a pair
    of functions that the page carries: \<open>shortDate\<close> for the options of the cards and
    \<open>longDate\<close> for those of the overlay; no method changes them;
  \<^item> of \<^verbatim>\<open>stats\<close> only \<^verbatim>\<open>total_emails\<close> is read, so the snapshot carries that number, absent
    when \<^verbatim>\<open>stats\<close> or the number is;
  \<^item> \<^verbatim>\<open>console.log\<close>, \<^verbatim>\<open>console.error\<close> and the timer that hides the toast after five
    seconds are left out; a handler runs from its first statement to its last with the
    response of its request given as an argument.
\<close>

subsection \<open>Records of the backend\<close>

record mail =
  title :: "string option"
  sender :: "string option"
  date :: "string option"
  snippet :: "string option"
  summary :: "string option"
  type :: "string option"
  category :: "string option"
  full_content :: "string option"

record snapshot =
  sections :: "(string \<times> mail list) list option"
  article_categories :: "(string \<times> mail list) list option"
  total_emails :: "nat option"

record result =
  success :: bool
  data :: "snapshot option"
  error :: "string option"

datatype response = Rejected | Resolved result

datatype json = JString string | JNumber int | JObject "(string \<times> json) list"

text \<open>The arguments of a \<^verbatim>\<open>fetch\<close>; \<open>http_method\<close> is its \<^verbatim>\<open>method\<close> option.\<close>

record request =
  url :: string
  http_method :: string
  headers :: "(string \<times> string) list"
  body :: "json option"

subsection \<open>The page\<close>

datatype tab = Articles | Jobs | Promotions | Notifications | Personal

datatype node =
  EmptyCategory string
| ArticleCard string mail
| SectionCard string mail

record category_btn =
  btn_category :: string
  btn_label :: string
  btn_count :: string
  btn_active :: bool

record grid =
  grid_display :: string
  grid_className :: string

record page =
  currentSection :: string
  currentCategory :: string
  currentView :: string
  emailsData :: "snapshot option"
  requests :: "request list"
  shortDate :: "string option \<Rightarrow> string"
  longDate :: "string option \<Rightarrow> string"
  totalCount :: string
  tabActive :: "tab \<Rightarrow> bool"
  tabCount :: "tab \<Rightarrow> string"
  contentLayout_noSidebar :: bool
  articlesSidebar_display :: string
  allButton_active :: bool
  allButton_count :: string
  categoryFilters :: "category_btn list"
  loadingState_display :: string
  emptyState_display :: string
  emailsGrid :: "grid option"
  currentCategory_text :: string
  viewBtn_grid_active :: bool
  viewBtn_list_active :: bool
  articlesList :: "node list"
  articleModal_active :: bool
  modalTitle :: string
  modalSender :: string
  modalDate :: string
  modalCategory :: string
  modalCategory_className :: string
  modalContent :: string
  body_overflow :: string
  toast_classList :: "string list"
  toastIcon_className :: string
  toastMessage :: string

datatype error = TypeError | FetchError

datatype outcome = Done | Threw error

type_synonym cmd = "page \<Rightarrow> outcome \<times> page"

definition lift :: "(page \<Rightarrow> page) \<Rightarrow> cmd" where
  "lift f s = (Done, f s)"

definition throw :: "error \<Rightarrow> cmd" where
  "throw e s = (Threw e, s)"

definition and_then :: "cmd \<Rightarrow> cmd \<Rightarrow> cmd" where
  "and_then c k s =
     (case c s of (Done, s') \<Rightarrow> k s' | (Threw e, s') \<Rightarrow> (Threw e, s'))"

fun steps :: "cmd list \<Rightarrow> cmd" where
  "steps [] = lift id"
| "steps (c # cs) = and_then c (steps cs)"

definition try_catch :: "cmd \<Rightarrow> (error \<Rightarrow> cmd) \<Rightarrow> cmd" where
  "try_catch c h s =
     (case c s of (Done, s') \<Rightarrow> (Done, s') | (Threw e, s') \<Rightarrow> h e s')"

subsection \<open>Strings\<close>

text \<open>
  Characters are the code units below 256. \<^verbatim>\<open>toUpperCase\<close> gives a string, since the sharp
  s becomes \<open>SS\<close>; the micro sign and the y with diaeresis, whose capitals lie above 255,
  are left as they are. \<^verbatim>\<open>trim\<close> removes the white space and line terminators of that
  range.
\<close>

definition toUpperCase :: "char \<Rightarrow> string" where
  "toUpperCase c =
     (let n = (of_char c :: nat) in
      if 97 \<le> n \<and> n \<le> 122 then [char_of (n - 32)]
      else if n = 223 then ''SS''
      else if 224 \<le> n \<and> n \<le> 254 \<and> n \<noteq> 247 then [char_of (n - 32)]
      else [c])"

definition is_space :: "char \<Rightarrow> bool" where
  "is_space c = ((of_char c :: nat) \<in> {9, 10, 11, 12, 13, 32, 160})"

definition trim :: "string \<Rightarrow> string" where
  "trim t = rev (dropWhile is_space (rev (dropWhile is_space t)))"

fun split :: "char \<Rightarrow> string \<Rightarrow> string list" where
  "split sep [] = [[]]"
| "split sep (c # cs) =
     (if c = sep then [] # split sep cs
      else (case split sep cs of [] \<Rightarrow> [[c]] | p # ps \<Rightarrow> (c # p) # ps))"

definition digit :: "nat \<Rightarrow> char" where
  "digit d = char_of (48 + d)"

function decimal :: "nat \<Rightarrow> string" where
  "decimal n = (if n < 10 then [digit n] else decimal (n div 10) @ [digit (n mod 10)])"
  by pat_completeness auto
termination
  by (relation "measure id") auto

declare decimal.simps [simp del]

text \<open>String conversion in a template literal, and by the \<^verbatim>\<open>textContent\<close> setter.\<close>

definition str :: "string option \<Rightarrow> string" where
  "str v = (case v of None \<Rightarrow> ''undefined'' | Some t \<Rightarrow> t)"

definition textContent_of :: "string option \<Rightarrow> string" where
  "textContent_of v = (case v of None \<Rightarrow> [] | Some t \<Rightarrow> t)"

text \<open>
  \<^verbatim>\<open>escapeHtml\<close> stores the text in a fresh \<^verbatim>\<open>div\<close> and reads its \<^verbatim>\<open>innerHTML\<close>: the
  browser's serialisation of a text node.
\<close>

definition serialize_char :: "char \<Rightarrow> string" where
  "serialize_char c =
     (if c = CHR ''&'' then ''&amp;''
      else if c = CHR ''<'' then ''&lt;''
      else if c = CHR ''>'' then ''&gt;''
      else if c = CHR 0xA0 then ''&nbsp;''
      else [c])"

definition serialize_text :: "string \<Rightarrow> string" where
  "serialize_text t = concat (map serialize_char t)"

definition escapeHtml :: "string option \<Rightarrow> string" where
  "escapeHtml text = serialize_text (textContent_of text)"

definition formatCategoryName :: "string \<Rightarrow> string" where
  "formatCategoryName cat =
     (case cat of [] \<Rightarrow> [] | c # cs \<Rightarrow> toUpperCase c @ cs)"

definition sectionNames :: "(string \<times> string) list" where
  "sectionNames =
     [(''articles'', ''Articles & Blogs''), (''jobs'', ''Job Alerts''),
      (''promotions'', ''Promotions''), (''notifications'', ''Notifications''),
      (''personal'', ''Personal'')]"

text \<open>
  \<^verbatim>\<open>sectionNames[section]\<close> is read for the five keys of the object literal; the names that
  every object inherits from its prototype are not modelled.
\<close>

definition formatSectionName :: "string \<Rightarrow> string" where
  "formatSectionName sec =
     (case map_of sectionNames sec of
        Some n \<Rightarrow> n
      | None \<Rightarrow> (case sec of [] \<Rightarrow> [] | c # cs \<Rightarrow> toUpperCase c @ cs))"

subsection \<open>Cards\<close>

text \<open>
  The markup of a card is the template literal of the source, with its line breaks and
  indentation: \<open>nl n\<close> is a line feed followed by \<open>n\<close> spaces. A record without the tag
  that the label is made from (\<^verbatim>\<open>category\<close>, \<^verbatim>\<open>type\<close>) makes \<^verbatim>\<open>charAt\<close> throw.
\<close>

definition nl :: "nat \<Rightarrow> string" where
  "nl n = CHR 0x0A # replicate n (CHR '' '')"

definition card_markup :: "string \<Rightarrow> string \<Rightarrow> string \<Rightarrow> string \<Rightarrow> string \<Rightarrow> string \<Rightarrow> string" where
  "card_markup t f d c l b =
     nl 12 @ ''<div class=\"article-header\">''
     @ nl 16 @ ''<h3 class=\"article-title\">'' @ t @ ''</h3>''
     @ nl 16 @ ''<div class=\"article-meta\">''
     @ nl 20 @ ''<span class=\"article-sender\">'' @ f @ ''</span>''
     @ nl 20 @ ''<span class=\"article-date\">'' @ d @ ''</span>''
     @ nl 16 @ ''</div>''
     @ nl 16 @ ''<span class=\"article-category '' @ c @ ''\">'' @ l @ ''</span>''
     @ nl 12 @ ''</div>''
     @ nl 12 @ ''<div class=\"article-summary\">''
     @ nl 16 @ b
     @ nl 12 @ ''</div>''
     @ nl 8"

definition createSectionEmailCard :: "page \<Rightarrow> mail \<Rightarrow> error + node" where
  "createSectionEmailCard s email =
     (case type email of
        None \<Rightarrow> Inl TypeError
      | Some t \<Rightarrow>
          Inr (SectionCard
                (card_markup (escapeHtml (title email)) (escapeHtml (sender email))
                   (shortDate s (date email)) t (formatSectionName t)
                   (escapeHtml (snippet email)))
                email))"

definition createArticleCard :: "page \<Rightarrow> mail \<Rightarrow> error + node" where
  "createArticleCard s article =
     (case category article of
        None \<Rightarrow> Inl TypeError
      | Some c \<Rightarrow>
          Inr (ArticleCard
                (card_markup (escapeHtml (title article)) (escapeHtml (sender article))
                   (shortDate s (date article)) c (formatCategoryName c)
                   (escapeHtml (summary article)))
                article))"

fun appendCards :: "(mail \<Rightarrow> error + node) \<Rightarrow> mail list \<Rightarrow> cmd" where
  "appendCards mk [] s = (Done, s)"
| "appendCards mk (m # ms) s =
     (case mk m of
        Inl e \<Rightarrow> (Threw e, s)
      | Inr n \<Rightarrow> appendCards mk ms (s\<lparr>articlesList := articlesList s @ [n]\<rparr>))"

subsection \<open>Toasts and the three views of the content area\<close>

definition classList_add :: "string \<Rightarrow> string list \<Rightarrow> string list" where
  "classList_add c cs = (if c \<in> set cs then cs else cs @ [c])"

definition showToast :: "string \<Rightarrow> string \<Rightarrow> cmd" where
  "showToast message kind =
     lift (\<lambda>s.
       let s1 =
         (if kind = ''success'' then
            s\<lparr>toastIcon_className := ''toast-icon fas fa-check-circle'',
              toast_classList := [''toast'']\<rparr>
          else if kind = ''error'' then
            s\<lparr>toastIcon_className := ''toast-icon fas fa-exclamation-circle'',
              toast_classList := [''toast'', ''error'']\<rparr>
          else if kind = ''info'' then
            s\<lparr>toastIcon_className := ''toast-icon fas fa-info-circle'',
              toast_classList := [''toast'']\<rparr>
          else s)
       in s1\<lparr>toastMessage := message,
             toast_classList := classList_add ''show'' (toast_classList s1)\<rparr>)"

definition emailsGrid_set_display :: "string \<Rightarrow> cmd" where
  "emailsGrid_set_display d s =
     (case emailsGrid s of
        None \<Rightarrow> (Threw TypeError, s)
      | Some g \<Rightarrow> (Done, s\<lparr>emailsGrid := Some (g\<lparr>grid_display := d\<rparr>)\<rparr>))"

definition showLoading :: cmd where
  "showLoading =
     steps [lift (\<lambda>s. s\<lparr>loadingState_display := ''flex''\<rparr>),
            lift (\<lambda>s. s\<lparr>emptyState_display := ''none''\<rparr>),
            emailsGrid_set_display ''none'']"

definition showEmpty :: cmd where
  "showEmpty =
     steps [lift (\<lambda>s. s\<lparr>loadingState_display := ''none''\<rparr>),
            lift (\<lambda>s. s\<lparr>emptyState_display := ''flex''\<rparr>),
            emailsGrid_set_display ''none'']"

subsection \<open>Counts and category filters\<close>

text \<open>
  The five tabs of the page carry \<^verbatim>\<open>data-section\<close> and a count with the id
  \<^verbatim>\<open>count-\<close> followed by the section; the count of the "All Articles" button has the id
  \<^verbatim>\<open>count-all\<close>. A selector on \<^verbatim>\<open>data-section\<close> is read as a comparison with these five
  values.
\<close>

definition tab_of :: "string \<Rightarrow> tab option" where
  "tab_of sec =
     map_of [(''articles'', Articles), (''jobs'', Jobs), (''promotions'', Promotions),
             (''notifications'', Notifications), (''personal'', Personal)] sec"

definition entry :: "(string \<times> mail list) list \<Rightarrow> string \<Rightarrow> mail list" where
  "entry obj k = (case map_of obj k of None \<Rightarrow> [] | Some ms \<Rightarrow> ms)"

definition setSectionCount :: "(string \<times> mail list) list \<Rightarrow> string \<Rightarrow> page \<Rightarrow> page" where
  "setSectionCount secs sec s =
     (case tab_of sec of
        Some t \<Rightarrow> s\<lparr>tabCount := (tabCount s)(t := decimal (length (entry secs sec)))\<rparr>
      | None \<Rightarrow>
          if sec = ''all'' then s\<lparr>allButton_count := decimal (length (entry secs sec))\<rparr>
          else s)"

definition updateSectionCounts :: cmd where
  "updateSectionCounts s =
     (case emailsData s of
        None \<Rightarrow> (Done, s)
      | Some d \<Rightarrow>
          (case sections d of
             None \<Rightarrow> (Done, s)
           | Some secs \<Rightarrow> (Done, fold (setSectionCount secs) (map fst secs) s)))"

definition new_button :: "string \<times> mail list \<Rightarrow> category_btn" where
  "new_button = (\<lambda>(cat, emails).
     \<lparr>btn_category = cat, btn_label = formatCategoryName cat,
      btn_count = decimal (length emails), btn_active = False\<rparr>)"

definition updateCategoryFilters :: cmd where
  "updateCategoryFilters s =
     (case emailsData s of
        None \<Rightarrow> (Threw TypeError, s)
      | Some d \<Rightarrow>
          (let categories = (case article_categories d of None \<Rightarrow> [] | Some cs \<Rightarrow> cs);
               total = (case sections d of None \<Rightarrow> 0 | Some secs \<Rightarrow> length (entry secs ''articles''))
           in (Done, s\<lparr>allButton_count := decimal total,
                        categoryFilters := map new_button categories\<rparr>)))"

definition updateUI :: cmd where
  "updateUI s =
     (case emailsData s of
        None \<Rightarrow> (Done, s)
      | Some d \<Rightarrow>
          steps [updateSectionCounts,
                 (if currentSection s = ''articles'' then updateCategoryFilters else lift id),
                 lift (\<lambda>s'. s'\<lparr>totalCount :=
                          decimal (case total_emails d of None \<Rightarrow> 0 | Some n \<Rightarrow> n)\<rparr>)] s)"

subsection \<open>The listing\<close>

definition displaySectionEmails :: cmd where
  "displaySectionEmails s =
     (case emailsData s of
        None \<Rightarrow> (Done, s)
      | Some d \<Rightarrow>
          (case sections d of
             None \<Rightarrow> (Done, s)
           | Some secs \<Rightarrow>
               (let emails = entry secs (currentSection s);
                    s1 = s\<lparr>currentCategory_text := formatSectionName (currentSection s),
                           articlesList := []\<rparr>
                in if emails = [] then
                     (Done, s1\<lparr>articlesList :=
                        [EmptyCategory (''No '' @ currentSection s @ '' found.'')]\<rparr>)
                   else appendCards (createSectionEmailCard s1) emails s1)))"

definition displayArticles :: cmd where
  "displayArticles s =
     (case emailsData s of
        None \<Rightarrow> (Done, s)
      | Some d \<Rightarrow>
          (let articles =
                 (if currentCategory s = ''all'' then
                    (case sections d of None \<Rightarrow> [] | Some secs \<Rightarrow> entry secs ''articles'')
                  else
                    (case article_categories d of
                       None \<Rightarrow> []
                     | Some cats \<Rightarrow> entry cats (currentCategory s)));
               s1 = s\<lparr>articlesList := []\<rparr>
           in if articles = [] then
                (Done, s1\<lparr>articlesList :=
                   [EmptyCategory ''No articles found in this category.'']\<rparr>)
              else appendCards (createArticleCard s1) articles s1))"

definition displayCurrentSection :: cmd where
  "displayCurrentSection s =
     (case emailsData s of
        None \<Rightarrow> (Done, s)
      | Some d \<Rightarrow>
          if currentSection s = ''articles'' then displayArticles s
          else displaySectionEmails s)"

definition displayEmails :: cmd where
  "displayEmails = displayCurrentSection"

definition showEmails :: cmd where
  "showEmails =
     steps [lift (\<lambda>s. s\<lparr>loadingState_display := ''none''\<rparr>),
            lift (\<lambda>s. s\<lparr>emptyState_display := ''none''\<rparr>),
            emailsGrid_set_display ''block'',
            displayEmails]"

subsection \<open>Handlers of the user's actions\<close>

definition switchSection :: "string \<Rightarrow> cmd" where
  "switchSection sec =
     steps [lift (\<lambda>s. s\<lparr>currentSection := sec\<rparr>),
            lift (\<lambda>s. s\<lparr>tabActive := (\<lambda>t. False)\<rparr>),
            (case tab_of sec of
               None \<Rightarrow> throw TypeError
             | Some t \<Rightarrow> lift (\<lambda>s. s\<lparr>tabActive := (tabActive s)(t := True)\<rparr>)),
            (if sec = ''articles'' then
               steps [lift (\<lambda>s. s\<lparr>articlesSidebar_display := ''block''\<rparr>),
                      lift (\<lambda>s. s\<lparr>contentLayout_noSidebar := False\<rparr>),
                      lift (\<lambda>s. s\<lparr>currentCategory := ''all''\<rparr>),
                      updateCategoryFilters]
             else
               steps [lift (\<lambda>s. s\<lparr>articlesSidebar_display := ''none''\<rparr>),
                      lift (\<lambda>s. s\<lparr>contentLayout_noSidebar := True\<rparr>)]),
            displayCurrentSection]"



definition filterByCategory :: "string \<Rightarrow> cmd" where
  "filterByCategory cat =
     steps [lift (\<lambda>s. s\<lparr>currentCategory := cat\<rparr>),
            lift (\<lambda>s. s\<lparr>allButton_active := (cat = ''all''),
                        categoryFilters :=
                          map (\<lambda>b. b\<lparr>btn_active := (btn_category b = cat)\<rparr>) (categoryFilters s)\<rparr>),
            displayEmails,
            showToast (''Showing '' @ (if cat = ''all'' then ''All Articles'' else formatCategoryName cat))
              ''success'']"

definition toggleView :: "string \<Rightarrow> cmd" where
  "toggleView view =
     steps [lift (\<lambda>s. s\<lparr>currentView := view\<rparr>),
            lift (\<lambda>s. s\<lparr>viewBtn_grid_active := (view = ''grid''),
                        viewBtn_list_active := (view = ''list'')\<rparr>),
            lift (\<lambda>s. case emailsGrid s of
                         None \<Rightarrow> s
                       | Some g \<Rightarrow> s\<lparr>emailsGrid := Some (g\<lparr>grid_className := ''emails-'' @ view\<rparr>)\<rparr>),
            displayEmails,
            showToast (''Switched to '' @ view @ '' view'') ''success'']"

subsection \<open>The detail overlay\<close>

definition paragraphs :: "string \<Rightarrow> string" where
  "paragraphs content =
     concat (map (\<lambda>p. if trim p \<noteq> [] then ''<p>'' @ escapeHtml (Some (trim p)) @ ''</p>'' else [])
               (split (CHR 0x0A) content))"

definition content_of :: "mail \<Rightarrow> string option" where
  "content_of article =
     (case full_content article of
        None \<Rightarrow> summary article
      | Some c \<Rightarrow> if c = [] then summary article else Some c)"

definition openArticle :: "mail \<Rightarrow> cmd" where
  "openArticle article =
     steps [lift (\<lambda>s. s\<lparr>modalTitle := textContent_of (title article)\<rparr>),
            lift (\<lambda>s. s\<lparr>modalSender := ''From: '' @ str (sender article)\<rparr>),
            lift (\<lambda>s. s\<lparr>modalDate := longDate s (date article)\<rparr>),
            (case category article of
               None \<Rightarrow> throw TypeError
             | Some c \<Rightarrow> lift (\<lambda>s. s\<lparr>modalCategory := formatCategoryName c\<rparr>)),
            lift (\<lambda>s. s\<lparr>modalCategory_className := ''article-category '' @ str (category article)\<rparr>),
            (case content_of article of
               None \<Rightarrow> throw TypeError
             | Some c \<Rightarrow>
                 lift (\<lambda>s. s\<lparr>modalContent :=
                   (if paragraphs c = [] then ''<p>No content available.</p>'' else paragraphs c)\<rparr>)),
            lift (\<lambda>s. s\<lparr>articleModal_active := True\<rparr>),
            lift (\<lambda>s. s\<lparr>body_overflow := ''hidden''\<rparr>)]"

definition openSectionEmail :: "mail \<Rightarrow> cmd" where
  "openSectionEmail email =
     steps [lift (\<lambda>s. s\<lparr>modalTitle := textContent_of (title email)\<rparr>),
            lift (\<lambda>s. s\<lparr>modalSender := ''From: '' @ str (sender email)\<rparr>),
            lift (\<lambda>s. s\<lparr>modalDate := longDate s (date email)\<rparr>),
            (case type email of
               None \<Rightarrow> throw TypeError
             | Some t \<Rightarrow> lift (\<lambda>s. s\<lparr>modalCategory := formatSectionName t\<rparr>)),
            lift (\<lambda>s. s\<lparr>modalCategory_className := ''article-category '' @ str (type email)\<rparr>),
            lift (\<lambda>s. s\<lparr>modalContent := ''<p>'' @ escapeHtml (snippet email) @ ''</p>''\<rparr>),
            lift (\<lambda>s. s\<lparr>articleModal_active := True\<rparr>),
            lift (\<lambda>s. s\<lparr>body_overflow := ''hidden''\<rparr>)]"

definition closeModal :: cmd where
  "closeModal =
     steps [lift (\<lambda>s. s\<lparr>articleModal_active := False\<rparr>),
            lift (\<lambda>s. s\<lparr>body_overflow := []\<rparr>)]"

subsection \<open>Handlers that call the backend\<close>

definition apiBase :: string where
  "apiBase = ''http://localhost:5002/api''"

definition fetch :: "request \<Rightarrow> cmd" where
  "fetch r = lift (\<lambda>s. s\<lparr>requests := requests s @ [r]\<rparr>)"

definition await :: "response \<Rightarrow> (result \<Rightarrow> cmd) \<Rightarrow> cmd" where
  "await resp k = (case resp of Rejected \<Rightarrow> throw FetchError | Resolved r \<Rightarrow> k r)"

definition or_else :: "string option \<Rightarrow> string \<Rightarrow> string" where
  "or_else v d = (case v of None \<Rightarrow> d | Some t \<Rightarrow> if t = [] then d else t)"

definition post_body :: json where
  "post_body = JObject [(''query'', JString ''newer_than:7d''), (''max_results'', JNumber 50)]"

definition post :: "string \<Rightarrow> request" where
  "post path =
     \<lparr>url = apiBase @ path, http_method = ''POST'',
      headers = [(''Content-Type'', ''application/json'')], body = Some post_body\<rparr>"

definition loadEmails :: "response \<Rightarrow> cmd" where
  "loadEmails resp =
     try_catch
       (steps [showLoading,
               fetch \<lparr>url = apiBase @ ''/emails'', http_method = ''GET'', headers = [], body = None\<rparr>,
               await resp (\<lambda>r.
                 if success r then
                   steps [lift (\<lambda>s. s\<lparr>emailsData := data r\<rparr>), updateUI, showEmails]
                 else showEmpty)])
       (\<lambda>e. steps [showToast ''Failed to load emails'' ''error'', showEmpty])"

definition refreshEmails :: "response \<Rightarrow> cmd" where
  "refreshEmails resp =
     try_catch
       (steps [showToast ''Refreshing emails...'' ''info'',
               fetch (post ''/refresh''),
               await resp (\<lambda>r.
                 if success r then
                   steps [lift (\<lambda>s. s\<lparr>emailsData := data r\<rparr>), updateUI, showEmails,
                          showToast ''Emails refreshed successfully!'' ''success'']
                 else showToast (or_else (error r) ''Failed to refresh emails'') ''error'')])
       (\<lambda>e. showToast ''Failed to refresh emails'' ''error'')"

definition processEmails :: "response \<Rightarrow> cmd" where
  "processEmails resp =
     try_catch
       (steps [showLoading,
               showToast ''Processing emails... This may take a few minutes'' ''info'',
               fetch (post ''/process-emails''),
               await resp (\<lambda>r.
                 if success r then
                   steps [lift (\<lambda>s. s\<lparr>emailsData := data r\<rparr>), updateUI, showEmails,
                          showToast ''Emails processed successfully!'' ''success'']
                 else
                   steps [showToast (or_else (error r) ''Failed to process emails'') ''error'',
                          showEmpty])])
       (\<lambda>e. steps [showToast ''Failed to process emails'' ''error'', showEmpty])"

subsection \<open>The page as the HTML ships it\<close>

definition shipped :: "(string option \<Rightarrow> string) \<Rightarrow> (string option \<Rightarrow> string) \<Rightarrow> page" where
  "shipped sd ld =
     \<lparr>currentSection = ''articles'', currentCategory = ''all'', currentView = ''grid'',
      emailsData = None, requests = [], shortDate = sd, longDate = ld,
      totalCount = ''0'', tabActive = (\<lambda>t. t = Articles), tabCount = (\<lambda>t. ''0''),
      contentLayout_noSidebar = False, articlesSidebar_display = [],
      allButton_active = True, allButton_count = ''0'', categoryFilters = [],
      loadingState_display = [], emptyState_display = ''none'', emailsGrid = None,
      currentCategory_text = ''All Articles'',
      viewBtn_grid_active = True, viewBtn_list_active = False, articlesList = [],
      articleModal_active = False, modalTitle = ''Article Title'', modalSender = [],
      modalDate = [], modalCategory = [], modalCategory_className = ''article-category'',
      modalContent = [], body_overflow = [],
      toast_classList = [''toast''], toastIcon_className = ''toast-icon'', toastMessage = []\<rparr>"

subsection \<open>Notions used to state the properties\<close>

text \<open>
  What a browser makes of markup, as far as the properties need it: the characters that
  belong to tags (from a \<open><\<close> to the next \<open>>\<close>), and the text that is shown for
  serialised text, with the four character references decoded.
\<close>

fun tag_chars :: "bool \<Rightarrow> string \<Rightarrow> string" where
  "tag_chars in_tag [] = []"
| "tag_chars in_tag (c # cs) =
     (if in_tag then c # tag_chars (c \<noteq> CHR ''>'') cs
      else if c = CHR ''<'' then c # tag_chars True cs
      else tag_chars False cs)"

definition tags :: "string \<Rightarrow> string" where
  "tags m = tag_chars False m"

fun shown_text :: "string \<Rightarrow> string" where
  "shown_text [] = []"
| "shown_text (c # cs) =
     (if c = CHR ''&'' \<and> take 4 cs = ''amp;'' then CHR ''&'' # shown_text (drop 4 cs)
      else if c = CHR ''&'' \<and> take 3 cs = ''lt;'' then CHR ''<'' # shown_text (drop 3 cs)
      else if c = CHR ''&'' \<and> take 3 cs = ''gt;'' then CHR ''>'' # shown_text (drop 3 cs)
      else if c = CHR ''&'' \<and> take 5 cs = ''nbsp;'' then CHR 0xA0 # shown_text (drop 5 cs)
      else c # shown_text cs)"

text \<open>
  The characters of markup that lie outside its tags, and the lines of a content that are
  not blank, trimmed.
\<close>

fun text_chars :: "bool \<Rightarrow> string \<Rightarrow> string" where
  "text_chars in_tag [] = []"
| "text_chars in_tag (c # cs) =
     (if in_tag then text_chars (c \<noteq> CHR ''>'') cs
      else if c = CHR ''<'' then text_chars True cs
      else c # text_chars False cs)"

definition text_of :: "string \<Rightarrow> string" where
  "text_of m = text_chars False m"

definition content_lines :: "string \<Rightarrow> string list" where
  "content_lines c = filter (\<lambda>l. l \<noteq> []) (map trim (split (CHR 0x0A) c))"

definition markup_of :: "node \<Rightarrow> string" where
  "markup_of n = (case n of EmptyCategory t \<Rightarrow> [] | ArticleCard m a \<Rightarrow> m | SectionCard m a \<Rightarrow> m)"

definition has_sections :: "page \<Rightarrow> bool" where
  "has_sections s = (case emailsData s of None \<Rightarrow> False | Some d \<Rightarrow> sections d \<noteq> None)"



text \<open>
  The listing that a rendering of the page leaves behind: nothing new without a snapshot
  (or, outside the articles section, without sections), the placeholder for an empty
  listing, and otherwise one card per record, in order, up to the first record that
  lacks the tag.
\<close>

definition article_card :: "page \<Rightarrow> mail \<Rightarrow> node" where
  "article_card s m =
     ArticleCard
       (card_markup (escapeHtml (title m)) (escapeHtml (sender m)) (shortDate s (date m))
          (str (category m)) (formatCategoryName (str (category m))) (escapeHtml (summary m)))
       m"

definition section_card :: "page \<Rightarrow> mail \<Rightarrow> node" where
  "section_card s m =
     SectionCard
       (card_markup (escapeHtml (title m)) (escapeHtml (sender m)) (shortDate s (date m))
          (str (type m)) (formatSectionName (str (type m))) (escapeHtml (snippet m)))
       m"


definition preserves :: "(page \<Rightarrow> 'a) \<Rightarrow> cmd \<Rightarrow> bool" where
  "preserves f c = (\<forall>s. f (snd (c s)) = f s)"

definition failed :: "response \<Rightarrow> bool" where
  "failed resp = (case resp of Rejected \<Rightarrow> True | Resolved r \<Rightarrow> \<not> success r)"

definition scrollable :: "page \<Rightarrow> bool" where
  "scrollable s = (body_overflow s \<noteq> ''hidden'')"

definition sidebar_visible :: "page \<Rightarrow> bool" where
  "sidebar_visible s = (articlesSidebar_display s \<noteq> ''none'')"

subsection \<open>Concrete records, snapshots and pages\<close>

definition script_article :: mail where
  "script_article =
     \<lparr>title = Some ''<script>alert(1)</script>'', sender = Some ''x@y.com'',
      date = Some ''2024-01-01'', snippet = Some ''<b>s</b>'', summary = Some ''a & b'',
      type = Some ''jobs'', category = Some ''technology'', full_content = None\<rparr>"

definition long_article :: mail where
  "long_article =
     \<lparr>title = Some ''Long'', sender = Some ''x@y.com'', date = Some ''2024-01-02'',
      snippet = None, summary = Some ''short'', type = None, category = Some ''finance'',
      full_content = Some (''  <b>x</b> '' @ [CHR 0x0A, CHR 0x0A] @ '' y & z'')\<rparr>"

definition one_job :: snapshot where
  "one_job =
     \<lparr>sections = Some [(''articles'', [script_article]), (''jobs'', [script_article])],
      article_categories = Some [(''technology'', [script_article])],
      total_emails = Some 2\<rparr>"

definition no_jobs :: snapshot where
  "no_jobs =
     \<lparr>sections = Some [(''articles'', [script_article])],
      article_categories = Some [(''technology'', [script_article])],
      total_emails = Some 1\<rparr>"

definition ok :: "snapshot \<Rightarrow> response" where
  "ok d = Resolved \<lparr>success = True, data = Some d, error = None\<rparr>"

definition refused :: response where
  "refused = Resolved \<lparr>success = False, data = None, error = Some ''backend down''\<rparr>"

definition shipped_page :: page where
  "shipped_page = shipped str str"

definition page_with_grid :: page where
  "page_with_grid =
     shipped_page\<lparr>emailsGrid := Some \<lparr>grid_display = ''none'', grid_className = ''emails-grid''\<rparr>\<rparr>"

definition script_card :: node where
  "script_card =
     ArticleCard
       (card_markup ''&lt;script&gt;alert(1)&lt;/script&gt;'' ''x@y.com'' ''2024-01-01''
          ''technology'' ''Technology'' ''a &amp; b'')
       script_article"

definition script_section_card :: node where
  "script_section_card =
     SectionCard
       (card_markup ''&lt;script&gt;alert(1)&lt;/script&gt;'' ''x@y.com'' ''2024-01-01''
          ''jobs'' ''Job Alerts'' ''&lt;b&gt;s&lt;/b&gt;'')
       script_article"

text \<open>
  Three runs: a page with the grid after a load that delivers one job; the same page after
  a refresh whose snapshot has no \<open>jobs\<close> key; and the shipped page after a click on the
  "Job Alerts" tab followed by a refresh.
\<close>

definition loaded_page :: page where
  "loaded_page = snd (loadEmails (ok one_job) page_with_grid)"

definition refreshed_page :: page where
  "refreshed_page = snd (refreshEmails (ok no_jobs) loaded_page)"


section \<open>Properties\<close>

subsection \<open>Sequencing\<close>

lemma lift_apply [simp]: "lift f s = (Done, f s)"
  by (simp add: lift_def)

lemma throw_apply [simp]: "throw e s = (Threw e, s)"
  by (simp add: throw_def)

lemma and_then_lift [simp]: "and_then (lift f) k s = k (f s)"
  by (simp add: and_then_def lift_def)

lemma and_then_throw [simp]: "and_then (throw e) k s = (Threw e, s)"
  by (simp add: and_then_def throw_def)

lemma and_then_Done: "c s = (Done, s') \<Longrightarrow> and_then c k s = k s'"
  by (simp add: and_then_def)

lemma and_then_Threw: "c s = (Threw e, s') \<Longrightarrow> and_then c k s = (Threw e, s')"
  by (simp add: and_then_def)

lemma and_then_skip [simp]: "and_then c (lift id) = c"
proof
  fix s
  obtain out s' where "c s = (out, s')" by (cases "c s")
  then show "and_then c (lift id) s = c s"
    by (cases out) (simp_all add: and_then_def lift_def)
qed

lemma and_then_assoc: "and_then (and_then a b) c = and_then a (and_then b c)"
proof
  fix s
  obtain out s' where "a s = (out, s')" by (cases "a s")
  then show "and_then (and_then a b) c s = and_then a (and_then b c) s"
    by (cases out) (simp_all add: and_then_def)
qed

lemma preserves_and_then:
  assumes "preserves f c" "preserves f k"
  shows "preserves f (and_then c k)"
  unfolding preserves_def
proof
  fix s
  obtain out s' where cs: "c s = (out, s')" by (cases "c s")
  with assms(1) have "f s' = f s" unfolding preserves_def by (metis snd_conv)
  moreover from assms(2) have "f (snd (k s')) = f s'" unfolding preserves_def by simp
  ultimately show "f (snd (and_then c k s)) = f s"
    using cs by (cases out) (simp_all add: and_then_def)
qed

lemma preserves_lift: "(\<And>s. f (g s) = f s) \<Longrightarrow> preserves f (lift g)"
  by (simp add: preserves_def lift_def)

lemma preserves_throw: "preserves f (throw e)"
  by (simp add: preserves_def throw_def)

lemma preserves_steps: "(\<And>c. c \<in> set cs \<Longrightarrow> preserves f c) \<Longrightarrow> preserves f (steps cs)"
  by (induction cs) (simp_all add: preserves_lift preserves_and_then)

lemma preserves_try_catch:
  assumes "preserves f c" and "\<And>e. preserves f (h e)"
  shows "preserves f (try_catch c h)"
  unfolding preserves_def
proof
  fix s
  obtain out s' where cs': "c s = (out, s')" by (cases "c s")
  with assms(1) have "f s' = f s" unfolding preserves_def by (metis snd_conv)
  moreover have "f (snd (h e s')) = f s'" for e
    using assms(2)[of e] unfolding preserves_def by simp
  ultimately show "f (snd (try_catch c h s)) = f s"
    using cs' by (cases out) (simp_all add: try_catch_def)
qed

lemma preserves_await: "(\<And>r. preserves f (k r)) \<Longrightarrow> preserves f (await resp k)"
  by (cases resp) (simp_all add: await_def preserves_throw)

lemma try_catch_Done:
  assumes "\<And>e s'. fst (h e s') = Done"
  shows "fst (try_catch c h s) = Done"
proof -
  obtain out s' where "c s = (out, s')" by (cases "c s")
  then show ?thesis using assms by (cases out) (simp_all add: try_catch_def)
qed

subsection \<open>What each rendering step may change\<close>

lemma appendCards_frame: "\<exists>l. snd (appendCards mk ms s) = s\<lparr>articlesList := l\<rparr>"
proof (induction ms arbitrary: s)
  case Nil
  have "s = s\<lparr>articlesList := articlesList s\<rparr>" by simp
  then show ?case by (metis appendCards.simps(1) snd_conv)
next
  case (Cons m ms)
  show ?case
  proof (cases "mk m")
    case (Inl e)
    have "s = s\<lparr>articlesList := articlesList s\<rparr>" by simp
    with Inl show ?thesis by (metis appendCards.simps(2) sum.simps(5) snd_conv)
  next
    case (Inr n)
    from Cons.IH[of "s\<lparr>articlesList := articlesList s @ [n]\<rparr>"]
    obtain l where "snd (appendCards mk ms (s\<lparr>articlesList := articlesList s @ [n]\<rparr>)) = s\<lparr>articlesList := l\<rparr>"
      by auto
    with Inr show ?thesis by auto
  qed
qed


lemma displayArticles_frame: "\<exists>l. snd (displayArticles s) = s\<lparr>articlesList := l\<rparr>"
proof (cases "emailsData s")
  case None
  have "s = s\<lparr>articlesList := articlesList s\<rparr>" by simp
  with None show ?thesis unfolding displayArticles_def by (metis option.simps(4) snd_conv)
next
  case (Some d)
  show ?thesis
    using appendCards_frame[of _ _ "s\<lparr>articlesList := []\<rparr>"] Some
    unfolding displayArticles_def Let_def
    by (auto split: if_splits)
qed


lemma displaySectionEmails_frame:
  "\<exists>l. snd (displaySectionEmails s) =
     s\<lparr>currentCategory_text :=
         (if has_sections s then formatSectionName (currentSection s) else currentCategory_text s),
       articlesList := l\<rparr>"
proof (cases "has_sections s")
  case False
  then have "snd (displaySectionEmails s) = s"
    unfolding displaySectionEmails_def has_sections_def by (auto split: option.splits)
  then have "snd (displaySectionEmails s) =
      s\<lparr>currentCategory_text := currentCategory_text s, articlesList := articlesList s\<rparr>"
    by simp
  with False show ?thesis by (intro exI[of _ "articlesList s"]) simp
next
  case True
  then obtain d secs where d: "emailsData s = Some d" "sections d = Some secs"
    unfolding has_sections_def by (auto split: option.splits)
  define s1 where "s1 = s\<lparr>currentCategory_text := formatSectionName (currentSection s), articlesList := []\<rparr>"
  show ?thesis
  proof (cases "entry secs (currentSection s) = []")
    case e: True
    have "snd (displaySectionEmails s) =
       s\<lparr>currentCategory_text := formatSectionName (currentSection s),
         articlesList := [EmptyCategory (''No '' @ currentSection s @ '' found.'')]\<rparr>"
      unfolding displaySectionEmails_def by (simp add: d e)
    with True show ?thesis by (intro exI[of _ "[EmptyCategory (''No '' @ currentSection s @ '' found.'')]"]) simp
  next
    case e: False
    have "snd (displaySectionEmails s) =
        snd (appendCards (createSectionEmailCard s1) (entry secs (currentSection s)) s1)"
      unfolding displaySectionEmails_def s1_def by (simp add: d e Let_def)
    moreover obtain l where "snd (appendCards (createSectionEmailCard s1) (entry secs (currentSection s)) s1)
        = s1\<lparr>articlesList := l\<rparr>"
      using appendCards_frame by blast
    ultimately have "snd (displaySectionEmails s) =
       s\<lparr>currentCategory_text := formatSectionName (currentSection s), articlesList := l\<rparr>"
      by (simp add: s1_def)
    with True show ?thesis by (intro exI[of _ l]) simp
  qed
qed

lemma displayCurrentSection_frame:
  "\<exists>l. snd (displayCurrentSection s) =
     s\<lparr>currentCategory_text :=
         (if currentSection s \<noteq> ''articles'' \<and> has_sections s
          then formatSectionName (currentSection s) else currentCategory_text s),
       articlesList := l\<rparr>"
proof (cases "emailsData s")
  case None
  then have "snd (displayCurrentSection s) = s" and "\<not> has_sections s"
    unfolding displayCurrentSection_def has_sections_def by simp_all
  then show ?thesis by (intro exI[of _ "articlesList s"]) simp
next
  case (Some d)
  show ?thesis
  proof (cases "currentSection s = ''articles''")
    case True
    then have "snd (displayCurrentSection s) = snd (displayArticles s)"
      unfolding displayCurrentSection_def by (simp add: Some)
    moreover obtain l where "snd (displayArticles s) = s\<lparr>articlesList := l\<rparr>"
      using displayArticles_frame by blast
    ultimately show ?thesis using True by (intro exI[of _ l]) simp
  next
    case False
    then have "snd (displayCurrentSection s) = snd (displaySectionEmails s)"
      unfolding displayCurrentSection_def by (simp add: Some)
    moreover obtain l where "snd (displaySectionEmails s) =
       s\<lparr>currentCategory_text :=
         (if has_sections s then formatSectionName (currentSection s) else currentCategory_text s),
       articlesList := l\<rparr>"
      using displaySectionEmails_frame by blast
    ultimately show ?thesis using False by (intro exI[of _ l]) simp
  qed
qed

lemma preserves_displayCurrentSection:
  assumes "\<And>s h l. f (s\<lparr>currentCategory_text := h, articlesList := l\<rparr>) = f s"
  shows "preserves f displayCurrentSection"
  unfolding preserves_def
proof
  fix s
  obtain l where "snd (displayCurrentSection s) =
     s\<lparr>currentCategory_text :=
         (if currentSection s \<noteq> ''articles'' \<and> has_sections s
          then formatSectionName (currentSection s) else currentCategory_text s),
       articlesList := l\<rparr>"
    using displayCurrentSection_frame by blast
  then show "f (snd (displayCurrentSection s)) = f s"
    using assms by simp
qed

lemma fold_setSectionCount_frame:
  "\<exists>tc ac. fold (setSectionCount secs) ks s = s\<lparr>tabCount := tc, allButton_count := ac\<rparr>"
proof (induction ks arbitrary: s)
  case Nil
  show ?case by (intro exI[of _ "tabCount s"] exI[of _ "allButton_count s"]) simp
next
  case (Cons k ks)
  obtain tc ac where 1: "setSectionCount secs k s = s\<lparr>tabCount := tc, allButton_count := ac\<rparr>"
  proof (cases "tab_of k")
    case None
    show ?thesis
    proof (cases "k = ''all''")
      case True
      with None have "setSectionCount secs k s =
          s\<lparr>tabCount := tabCount s, allButton_count := decimal (length (entry secs k))\<rparr>"
        by (simp add: setSectionCount_def)
      then show ?thesis using that by blast
    next
      case False
      with None have "setSectionCount secs k s =
          s\<lparr>tabCount := tabCount s, allButton_count := allButton_count s\<rparr>"
        by (simp add: setSectionCount_def)
      then show ?thesis using that by blast
    qed
  next
    case (Some t)
    then have "setSectionCount secs k s =
          s\<lparr>tabCount := (tabCount s)(t := decimal (length (entry secs k))),
            allButton_count := allButton_count s\<rparr>"
      by (simp add: setSectionCount_def)
    then show ?thesis using that by blast
  qed
  obtain tc' ac' where "fold (setSectionCount secs) ks (setSectionCount secs k s)
      = (setSectionCount secs k s)\<lparr>tabCount := tc', allButton_count := ac'\<rparr>"
    using Cons.IH by blast
  with 1 have "fold (setSectionCount secs) (k # ks) s = s\<lparr>tabCount := tc', allButton_count := ac'\<rparr>"
    by simp
  then show ?case by blast
qed

lemma updateUI_frame:
  "fst (updateUI s) = Done \<and>
   (\<exists>t tc ac cf. snd (updateUI s) =
      s\<lparr>totalCount := t, tabCount := tc, allButton_count := ac, categoryFilters := cf\<rparr>)"
proof (cases "emailsData s")
  case None
  then have "updateUI s = (Done, s)" by (simp add: updateUI_def)
  moreover have "s = s\<lparr>totalCount := totalCount s, tabCount := tabCount s,
      allButton_count := allButton_count s, categoryFilters := categoryFilters s\<rparr>" by simp
  ultimately show ?thesis by (metis fst_conv snd_conv)
next
  case (Some d)
  obtain tc ac where f: "snd (updateSectionCounts s) = s\<lparr>tabCount := tc, allButton_count := ac\<rparr>"
    and u: "fst (updateSectionCounts s) = Done"
  proof (cases "sections d")
    case None
    with Some have "updateSectionCounts s = (Done, s)" by (simp add: updateSectionCounts_def)
    moreover have "s = s\<lparr>tabCount := tabCount s, allButton_count := allButton_count s\<rparr>" by simp
    ultimately show ?thesis using that by (metis fst_conv snd_conv)
  next
    case (Some secs)
    with \<open>emailsData s = Some d\<close>
    have "updateSectionCounts s = (Done, fold (setSectionCount secs) (map fst secs) s)"
      by (simp add: updateSectionCounts_def)
    then show ?thesis using that fold_setSectionCount_frame by (metis fst_conv snd_conv)
  qed
  define s1 where "s1 = s\<lparr>tabCount := tc, allButton_count := ac\<rparr>"
  have us: "updateSectionCounts s = (Done, s1)"
    using f u by (simp add: s1_def prod_eq_iff)
  define t where "t = decimal (case total_emails d of None \<Rightarrow> 0 | Some n \<Rightarrow> n)"
  show ?thesis
  proof (cases "currentSection s = ''articles''")
    case True
    have "updateUI s = (Done, s\<lparr>totalCount := t, tabCount := tc,
        allButton_count := decimal (case sections d of None \<Rightarrow> 0
                   | Some secs \<Rightarrow> length (entry secs ''articles'')),
        categoryFilters := map new_button
                  (case article_categories d of None \<Rightarrow> [] | Some cs \<Rightarrow> cs)\<rparr>)"
      using Some us True
      by (simp add: updateUI_def and_then_def updateCategoryFilters_def s1_def Let_def t_def)
    then show ?thesis by (metis fst_conv snd_conv)
  next
    case False
    have "updateUI s = (Done, s\<lparr>totalCount := t, tabCount := tc,
        allButton_count := ac, categoryFilters := categoryFilters s\<rparr>)"
      using Some us False
      by (simp add: updateUI_def and_then_def s1_def t_def)
    then show ?thesis by (metis fst_conv snd_conv)
  qed
qed

lemma preserves_updateUI:
  assumes "\<And>s t tc ac cf. f (s\<lparr>totalCount := t, tabCount := tc, allButton_count := ac,
      categoryFilters := cf\<rparr>) = f s"
  shows "preserves f updateUI"
  unfolding preserves_def
proof
  fix s
  obtain t tc ac cf where "snd (updateUI s) =
      s\<lparr>totalCount := t, tabCount := tc, allButton_count := ac, categoryFilters := cf\<rparr>"
    using updateUI_frame by blast
  then show "f (snd (updateUI s)) = f s" using assms by simp
qed


lemma preserves_showToast:
  assumes "\<And>s i c m. f (s\<lparr>toast_classList := c, toastIcon_className := i, toastMessage := m\<rparr>) = f s"
  shows "preserves f (showToast message kind)"
proof -
  have "\<exists>i c m. snd (showToast message kind s) =
      s\<lparr>toast_classList := c, toastIcon_className := i, toastMessage := m\<rparr>" for s
  proof -
    consider "kind = ''success''" | "kind \<noteq> ''success''" "kind = ''error''"
      | "kind \<noteq> ''success''" "kind \<noteq> ''error''" "kind = ''info''"
      | "kind \<noteq> ''success''" "kind \<noteq> ''error''" "kind \<noteq> ''info''" by blast
    then show ?thesis
    proof cases
      case 1
      then have "snd (showToast message kind s) = s\<lparr>toast_classList := [''toast'', ''show''],
         toastIcon_className := ''toast-icon fas fa-check-circle'', toastMessage := message\<rparr>"
        by (simp add: showToast_def lift_def classList_add_def)
      then show ?thesis by blast
    next
      case 2
      then have "snd (showToast message kind s) = s\<lparr>toast_classList := [''toast'', ''error'', ''show''],
         toastIcon_className := ''toast-icon fas fa-exclamation-circle'', toastMessage := message\<rparr>"
        by (simp add: showToast_def lift_def classList_add_def)
      then show ?thesis by blast
    next
      case 3
      then have "snd (showToast message kind s) = s\<lparr>toast_classList := [''toast'', ''show''],
         toastIcon_className := ''toast-icon fas fa-info-circle'', toastMessage := message\<rparr>"
        by (simp add: showToast_def lift_def classList_add_def)
      then show ?thesis by blast
    next
      case 4
      then have "snd (showToast message kind s) =
         s\<lparr>toast_classList := classList_add ''show'' (toast_classList s),
         toastIcon_className := toastIcon_className s, toastMessage := message\<rparr>"
        by (simp add: showToast_def lift_def)
      then show ?thesis by blast
    qed
  qed
  then show ?thesis unfolding preserves_def using assms by metis
qed

lemma preserves_emailsGrid_set_display:
  assumes "\<And>s g. f (s\<lparr>emailsGrid := g\<rparr>) = f s"
  shows "preserves f (emailsGrid_set_display d)"
  unfolding preserves_def
proof
  fix s
  show "f (snd (emailsGrid_set_display d s)) = f s"
    using assms by (cases "emailsGrid s") (simp_all add: emailsGrid_set_display_def)
qed

lemma preserves_requests_showEmails: "preserves requests showEmails"
  unfolding showEmails_def displayEmails_def
  by (auto intro!: preserves_and_then preserves_lift preserves_emailsGrid_set_display
      preserves_displayCurrentSection)

lemma preserves_requests_showEmpty: "preserves requests showEmpty"
  unfolding showEmpty_def
  by (auto intro!: preserves_and_then preserves_lift preserves_emailsGrid_set_display)

lemma preserves_requests_showToast: "preserves requests (showToast m k)"
  by (rule preserves_showToast) simp

lemma preserves_requests_updateUI: "preserves requests updateUI"
  by (rule preserves_updateUI) simp

lemma showLoading_eq:
  "showLoading s =
     (case emailsGrid s of
        None \<Rightarrow> (Threw TypeError, s\<lparr>loadingState_display := ''flex'', emptyState_display := ''none''\<rparr>)
      | Some g \<Rightarrow> (Done, s\<lparr>loadingState_display := ''flex'', emptyState_display := ''none'',
                           emailsGrid := Some (g\<lparr>grid_display := ''none''\<rparr>)\<rparr>))"
  by (simp add: showLoading_def emailsGrid_set_display_def split: option.splits)

lemma updateCategoryFilters_eq:
  "updateCategoryFilters s =
     (case emailsData s of
        None \<Rightarrow> (Threw TypeError, s)
      | Some d \<Rightarrow>
          (Done, s\<lparr>allButton_count :=
                     decimal (case sections d of None \<Rightarrow> 0 | Some secs \<Rightarrow> length (entry secs ''articles'')),
                   categoryFilters :=
                     map new_button (case article_categories d of None \<Rightarrow> [] | Some cs \<Rightarrow> cs)\<rparr>))"
  by (simp add: updateCategoryFilters_def Let_def split: option.splits)

lemma preserves_updateCategoryFilters:
  assumes "\<And>s ac cf. f (s\<lparr>allButton_count := ac, categoryFilters := cf\<rparr>) = f s"
  shows "preserves f updateCategoryFilters"
  unfolding preserves_def
proof
  fix s
  show "f (snd (updateCategoryFilters s)) = f s"
    using assms by (cases "emailsData s") (simp_all add: updateCategoryFilters_eq)
qed

lemma switchSection_eq:
  "switchSection sec s =
     (case tab_of sec of
        None \<Rightarrow> (Threw TypeError, s\<lparr>currentSection := sec, tabActive := (\<lambda>t. False)\<rparr>)
      | Some t \<Rightarrow>
          if sec = ''articles'' then
            and_then updateCategoryFilters displayCurrentSection
              (s\<lparr>currentSection := sec, tabActive := (\<lambda>t'. t' = t),
                 articlesSidebar_display := ''block'', contentLayout_noSidebar := False,
                 currentCategory := ''all''\<rparr>)
          else
            displayCurrentSection
              (s\<lparr>currentSection := sec, tabActive := (\<lambda>t'. t' = t),
                 articlesSidebar_display := ''none'', contentLayout_noSidebar := True\<rparr>))"
proof (cases "tab_of sec")
  case None
  then show ?thesis by (simp add: switchSection_def)
next
  case (Some t)
  have t: "(\<lambda>t'. False)(t := True) = (\<lambda>t'. t' = t)" by (rule ext) simp
  show ?thesis
  proof (cases "sec = ''articles''")
    case True
    with Some show ?thesis
      by (simp add: switchSection_def and_then_assoc t)
  next
    case False
    with Some show ?thesis
      by (simp add: switchSection_def and_then_assoc t)
  qed
qed











lemma article_card_frame [simp]:
  "article_card (s\<lparr>articlesList := l\<rparr>) = article_card s"
  "article_card (s\<lparr>currentCategory_text := h\<rparr>) = article_card s"
  by (rule ext, simp add: article_card_def)+

lemma section_card_frame [simp]:
  "section_card (s\<lparr>articlesList := l\<rparr>) = section_card s"
  "section_card (s\<lparr>currentCategory_text := h\<rparr>) = section_card s"
  by (rule ext, simp add: section_card_def)+






subsection \<open>Counts\<close>

lemma tab_of_inj: "tab_of k = Some t \<Longrightarrow> tab_of k' = Some t \<Longrightarrow> k = k'"
  by (auto simp: tab_of_def split: if_splits)

lemma setSectionCount_tabCount:
  "tabCount (setSectionCount secs k s) t =
     (if tab_of k = Some t then decimal (length (entry secs k)) else tabCount s t)"
  by (auto simp: setSectionCount_def split: option.splits)

lemma fold_setSectionCount_absent:
  "\<forall>k \<in> set ks. tab_of k \<noteq> Some t \<Longrightarrow>
     tabCount (fold (setSectionCount secs) ks s) t = tabCount s t"
  by (induction ks arbitrary: s) (simp_all add: setSectionCount_tabCount)

lemma fold_setSectionCount_present:
  "k \<in> set ks \<Longrightarrow> tab_of k = Some t \<Longrightarrow>
     tabCount (fold (setSectionCount secs) ks s) t = decimal (length (entry secs k))"
proof (induction ks arbitrary: s)
  case Nil
  then show ?case by simp
next
  case (Cons a ks)
  show ?case
  proof (cases "k \<in> set ks")
    case True
    with Cons show ?thesis by simp
  next
    case False
    with Cons.prems have a: "a = k" by simp
    from False Cons.prems(2) have "\<forall>k' \<in> set ks. tab_of k' \<noteq> Some t"
      using tab_of_inj by blast
    then show ?thesis
      using a Cons.prems(2) by (simp add: fold_setSectionCount_absent setSectionCount_tabCount)
  qed
qed

lemma updateUI_tabCount:
  assumes "emailsData s = Some d" "sections d = Some secs"
  shows "tabCount (snd (updateUI s)) = tabCount (fold (setSectionCount secs) (map fst secs) s)"
proof -
  define s1 where "s1 = fold (setSectionCount secs) (map fst secs) s"
  define k where "k = and_then (if currentSection s = ''articles'' then updateCategoryFilters else lift id)
     (lift (\<lambda>s'. s'\<lparr>totalCount := decimal (case total_emails d of None \<Rightarrow> 0 | Some n \<Rightarrow> n)\<rparr>))"
  have us: "updateSectionCounts s = (Done, s1)"
    using assms by (simp add: updateSectionCounts_def s1_def)
  have "updateUI s = and_then updateSectionCounts k s"
    using assms(1) by (simp add: updateUI_def k_def)
  then have "updateUI s = k s1"
    using us by (simp add: and_then_Done)
  moreover have "preserves tabCount k"
    unfolding k_def
    by (auto intro!: preserves_and_then preserves_lift preserves_updateCategoryFilters)
  ultimately show ?thesis by (simp add: preserves_def s1_def)
qed

lemma updateUI_tabCount_present:
  assumes "emailsData s = Some d" "sections d = Some secs"
    and "k \<in> fst ` set secs" "tab_of k = Some t"
  shows "tabCount (snd (updateUI s)) t = decimal (length (entry secs k))"
  using assms by (simp add: updateUI_tabCount fold_setSectionCount_present)

lemma updateUI_tabCount_absent:
  assumes "emailsData s = Some d" "sections d = Some secs"
    and "\<forall>k \<in> fst ` set secs. tab_of k \<noteq> Some t"
  shows "tabCount (snd (updateUI s)) t = tabCount s t"
  using assms by (simp add: updateUI_tabCount fold_setSectionCount_absent)

lemma updateUI_category_buttons:
  assumes "emailsData s = Some d" "currentSection s = ''articles''"
  shows "categoryFilters (snd (updateUI s)) =
           map new_button (case article_categories d of None \<Rightarrow> [] | Some cs \<Rightarrow> cs)"
    and "allButton_count (snd (updateUI s)) =
           decimal (case sections d of None \<Rightarrow> 0 | Some secs \<Rightarrow> length (entry secs ''articles''))"
proof -
  obtain s1 where us: "updateSectionCounts s = (Done, s1)" and e: "emailsData s1 = Some d"
  proof (cases "sections d")
    case None
    with assms(1) have "updateSectionCounts s = (Done, s)" by (simp add: updateSectionCounts_def)
    with assms(1) show ?thesis using that by blast
  next
    case (Some secs)
    obtain tc ac where "fold (setSectionCount secs) (map fst secs) s = s\<lparr>tabCount := tc, allButton_count := ac\<rparr>"
      using fold_setSectionCount_frame by blast
    with Some assms(1) have "updateSectionCounts s = (Done, s\<lparr>tabCount := tc, allButton_count := ac\<rparr>)"
      by (simp add: updateSectionCounts_def)
    moreover have "emailsData (s\<lparr>tabCount := tc, allButton_count := ac\<rparr>) = Some d"
      using assms(1) by simp
    ultimately show ?thesis using that by blast
  qed
  have u: "updateUI s = and_then updateCategoryFilters
     (lift (\<lambda>s'. s'\<lparr>totalCount := decimal (case total_emails d of None \<Rightarrow> 0 | Some n \<Rightarrow> n)\<rparr>)) s1"
    using assms us by (simp add: updateUI_def and_then_Done[where c=updateSectionCounts])
  show "categoryFilters (snd (updateUI s)) =
           map new_button (case article_categories d of None \<Rightarrow> [] | Some cs \<Rightarrow> cs)"
    and "allButton_count (snd (updateUI s)) =
           decimal (case sections d of None \<Rightarrow> 0 | Some secs \<Rightarrow> length (entry secs ''articles''))"
    unfolding u using e by (simp_all add: and_then_def updateCategoryFilters_eq)
qed

subsection \<open>Markup\<close>

lemma serialize_char_no_angle:
  "CHR ''<'' \<notin> set (serialize_char c)" "CHR ''>'' \<notin> set (serialize_char c)"
  by (simp_all add: serialize_char_def)

lemma serialize_text_no_angle:
  "CHR ''<'' \<notin> set (serialize_text t)" "CHR ''>'' \<notin> set (serialize_text t)"
  by (induction t) (simp_all add: serialize_text_def serialize_char_no_angle)

lemma escapeHtml_no_angle:
  "CHR ''<'' \<notin> set (escapeHtml y)" "CHR ''>'' \<notin> set (escapeHtml y)"
  by (simp_all add: escapeHtml_def serialize_text_no_angle)

lemma shown_text_serialize_char: "shown_text (serialize_char c @ r) = c # shown_text r"
  by (simp add: serialize_char_def)

lemma shown_text_serialize_text: "shown_text (serialize_text t) = t"
  by (induction t) (simp_all add: serialize_text_def shown_text_serialize_char)

lemma tag_chars_text: "CHR ''<'' \<notin> set t \<Longrightarrow> tag_chars False (t @ r) = tag_chars False r"
  by (induction t) auto

lemma nl_no_angle: "CHR ''<'' \<notin> set (nl n)"
  by (simp add: nl_def)

lemma tag_chars_slot:
  "CHR ''<'' \<notin> set w \<Longrightarrow> CHR ''<'' \<notin> set t \<Longrightarrow>
     tag_chars b (p @ CHR ''>'' # w @ t @ r) = tag_chars b (p @ CHR ''>'' # w @ r)"
proof (induction p arbitrary: b)
  case Nil
  have "tag_chars False (w @ t @ r) = tag_chars False (w @ r)"
    using Nil by (simp add: tag_chars_text)
  then show ?case by simp
next
  case (Cons a p)
  then show ?case by simp
qed

lemma tags_card_markup:
  assumes "CHR ''<'' \<notin> set t" "CHR ''<'' \<notin> set f" "CHR ''<'' \<notin> set b"
  shows "tags (card_markup t f d c l b) = tags (card_markup [] [] d c l [])"
proof -
  define p1 where "p1 = nl 12 @ ''<div class=\"article-header\">''
     @ nl 16 @ ''<h3 class=\"article-title\"''"
  define p2 where "p2 = ''</h3>'' @ nl 16 @ ''<div class=\"article-meta\">''
     @ nl 20 @ ''<span class=\"article-sender\"''"
  define p3 where "p3 = ''</span>'' @ nl 20 @ ''<span class=\"article-date\">'' @ d @ ''</span>''
     @ nl 16 @ ''</div>''
     @ nl 16 @ ''<span class=\"article-category '' @ c @ ''\">'' @ l @ ''</span>''
     @ nl 12 @ ''</div>''
     @ nl 12 @ ''<div class=\"article-summary\"''"
  define r where "r = nl 12 @ ''</div>'' @ nl 8"
  have m: "card_markup t f d c l b =
      p1 @ CHR ''>'' # [] @ t @ (p2 @ CHR ''>'' # [] @ f @ (p3 @ CHR ''>'' # nl 16 @ b @ r))"
    for t f b
    by (simp add: card_markup_def p1_def p2_def p3_def r_def)
  have "tags (card_markup t f d c l b) =
      tag_chars False (p1 @ CHR ''>'' # [] @ t @ (p2 @ CHR ''>'' # [] @ f @ (p3 @ CHR ''>'' # nl 16 @ b @ r)))"
    unfolding tags_def m ..
  also have "\<dots> = tag_chars False (p1 @ CHR ''>'' # [] @ (p2 @ CHR ''>'' # [] @ f @ (p3 @ CHR ''>'' # nl 16 @ b @ r)))"
    using assms(1) by (intro tag_chars_slot) simp_all
  also have "\<dots> = tag_chars False ((p1 @ CHR ''>'' # p2) @ CHR ''>'' # [] @ f @ (p3 @ CHR ''>'' # nl 16 @ b @ r))"
    by simp
  also have "\<dots> = tag_chars False ((p1 @ CHR ''>'' # p2) @ CHR ''>'' # [] @ (p3 @ CHR ''>'' # nl 16 @ b @ r))"
    using assms(2) by (intro tag_chars_slot) simp_all
  also have "\<dots> = tag_chars False ((p1 @ CHR ''>'' # p2 @ CHR ''>'' # p3) @ CHR ''>'' # nl 16 @ b @ r)"
    by simp
  also have "\<dots> = tag_chars False ((p1 @ CHR ''>'' # p2 @ CHR ''>'' # p3) @ CHR ''>'' # nl 16 @ r)"
    using assms(3) nl_no_angle by (intro tag_chars_slot) simp_all
  also have "\<dots> = tags (card_markup [] [] d c l [])"
    unfolding tags_def m by simp
  finally show ?thesis .
qed

lemma tags_card_escaped:
  "tags (card_markup (escapeHtml t) (escapeHtml f) d c l (escapeHtml b)) =
     tags (card_markup [] [] d c l [])"
  by (rule tags_card_markup) (rule escapeHtml_no_angle(1))+

lemma tags_paragraph:
  "tag_chars False (''<p>'' @ serialize_text t @ ''</p>'' @ r) = ''<p></p>'' @ tag_chars False r"
  using tag_chars_text[OF serialize_text_no_angle(1), of t "''</p>'' @ r"] by simp

lemma tags_paragraphs_aux:
  "tag_chars False (concat (map (\<lambda>p. if trim p \<noteq> [] then ''<p>'' @ escapeHtml (Some (trim p)) @ ''</p>'' else []) ps))
     = concat (replicate (length (filter (\<lambda>p. trim p \<noteq> []) ps)) ''<p></p>'')"
proof (induction ps)
  case Nil
  show ?case by simp
next
  case (Cons p ps)
  show ?case
  proof (cases "trim p = []")
    case True
    with Cons show ?thesis by simp
  next
    case False
    with Cons tags_paragraph[of "trim p"] show ?thesis
      by (simp add: escapeHtml_def textContent_of_def)
  qed
qed

lemma tags_paragraphs:
  "tags (paragraphs c) =
     concat (replicate (length (filter (\<lambda>p. trim p \<noteq> []) (split (CHR 0x0A) c))) ''<p></p>'')"
  unfolding tags_def paragraphs_def by (rule tags_paragraphs_aux)

lemma tags_modal_content:
  "\<exists>k. tags (if paragraphs c = [] then ''<p>No content available.</p>'' else paragraphs c)
      = concat (replicate k ''<p></p>'')"
proof (cases "paragraphs c = []")
  case True
  have "tags ''<p>No content available.</p>'' = concat (replicate 1 ''<p></p>'')"
    by (simp add: tags_def)
  with True show ?thesis by (intro exI[of _ 1]) simp
next
  case False
  then show ?thesis
    by (intro exI[of _ "length (filter (\<lambda>p. trim p \<noteq> []) (split (CHR 0x0A) c))"])
       (simp add: tags_paragraphs)
qed

lemma serialize_text_From: "serialize_text (''From: '' @ t) = ''From: '' @ serialize_text t"
  by (simp add: serialize_text_def serialize_char_def)

lemma createArticleCard_markup:
  assumes "createArticleCard s a = Inr n"
  shows "markup_of n =
          card_markup (escapeHtml (title a)) (escapeHtml (sender a)) (shortDate s (date a))
            (str (category a)) (formatCategoryName (str (category a))) (escapeHtml (summary a))"
proof (cases "category a")
  case None
  with assms show ?thesis by (simp add: createArticleCard_def)
next
  case (Some c)
  with assms have "n = ArticleCard
      (card_markup (escapeHtml (title a)) (escapeHtml (sender a)) (shortDate s (date a))
         c (formatCategoryName c) (escapeHtml (summary a))) a"
    by (simp add: createArticleCard_def)
  with Some show ?thesis by (simp add: markup_of_def str_def)
qed

lemma createSectionEmailCard_markup:
  assumes "createSectionEmailCard s a = Inr n"
  shows "markup_of n =
          card_markup (escapeHtml (title a)) (escapeHtml (sender a)) (shortDate s (date a))
            (str (type a)) (formatSectionName (str (type a))) (escapeHtml (snippet a))"
proof (cases "type a")
  case None
  with assms show ?thesis by (simp add: createSectionEmailCard_def)
next
  case (Some c)
  with assms have "n = SectionCard
      (card_markup (escapeHtml (title a)) (escapeHtml (sender a)) (shortDate s (date a))
         c (formatSectionName c) (escapeHtml (snippet a))) a"
    by (simp add: createSectionEmailCard_def)
  with Some show ?thesis by (simp add: markup_of_def str_def)
qed

lemma openArticle_Done:
  "(fst (openArticle a s) = Done) = (category a \<noteq> None \<and> content_of a \<noteq> None)"
  by (auto simp: openArticle_def split: option.splits)

lemma openArticle_modal:
  assumes "fst (openArticle a s) = Done"
  shows "modalTitle (snd (openArticle a s)) = textContent_of (title a)"
    and "modalSender (snd (openArticle a s)) = ''From: '' @ str (sender a)"
    and "\<exists>c. content_of a = Some c \<and> modalContent (snd (openArticle a s)) =
           (if paragraphs c = [] then ''<p>No content available.</p>'' else paragraphs c)"
    and "body_overflow (snd (openArticle a s)) = ''hidden''"
    and "articleModal_active (snd (openArticle a s))"
proof -
  from assms obtain c t where "category a = Some c" "content_of a = Some t"
    unfolding openArticle_Done by auto
  then show "modalTitle (snd (openArticle a s)) = textContent_of (title a)"
    and "modalSender (snd (openArticle a s)) = ''From: '' @ str (sender a)"
    and "\<exists>c. content_of a = Some c \<and> modalContent (snd (openArticle a s)) =
           (if paragraphs c = [] then ''<p>No content available.</p>'' else paragraphs c)"
    and "body_overflow (snd (openArticle a s)) = ''hidden''"
    and "articleModal_active (snd (openArticle a s))"
    by (simp_all add: openArticle_def)
qed

lemma openSectionEmail_Done:
  "(fst (openSectionEmail a s) = Done) = (type a \<noteq> None)"
  by (auto simp: openSectionEmail_def split: option.splits)

lemma openSectionEmail_modal:
  assumes "fst (openSectionEmail a s) = Done"
  shows "modalTitle (snd (openSectionEmail a s)) = textContent_of (title a)"
    and "modalSender (snd (openSectionEmail a s)) = ''From: '' @ str (sender a)"
    and "modalContent (snd (openSectionEmail a s)) = ''<p>'' @ escapeHtml (snippet a) @ ''</p>''"
    and "body_overflow (snd (openSectionEmail a s)) = ''hidden''"
    and "articleModal_active (snd (openSectionEmail a s))"
proof -
  from assms obtain t where "type a = Some t"
    unfolding openSectionEmail_Done by auto
  then show "modalTitle (snd (openSectionEmail a s)) = textContent_of (title a)"
    and "modalSender (snd (openSectionEmail a s)) = ''From: '' @ str (sender a)"
    and "modalContent (snd (openSectionEmail a s)) = ''<p>'' @ escapeHtml (snippet a) @ ''</p>''"
    and "body_overflow (snd (openSectionEmail a s)) = ''hidden''"
    and "articleModal_active (snd (openSectionEmail a s))"
    by (simp_all add: openSectionEmail_def)
qed

lemma text_chars_text: "CHR ''<'' \<notin> set t \<Longrightarrow> text_chars False (t @ r) = t @ text_chars False r"
  by (induction t) auto

lemma text_chars_paragraph:
  "text_chars False (''<p>'' @ serialize_text t @ ''</p>'' @ r) = serialize_text t @ text_chars False r"
  using text_chars_text[OF serialize_text_no_angle(1), of t "''</p>'' @ r"] by simp

lemma shown_text_serialize_append: "shown_text (serialize_text t @ r) = t @ shown_text r"
proof (induction t)
  case Nil
  show ?case by (simp add: serialize_text_def)
next
  case (Cons c t)
  have "serialize_text (c # t) @ r = serialize_char c @ (serialize_text t @ r)"
    by (simp add: serialize_text_def)
  then show ?case using Cons by (simp only: shown_text_serialize_char) simp
qed

lemma text_of_paragraphs:
  "shown_text (text_chars False
      (concat (map (\<lambda>l. ''<p>'' @ escapeHtml (Some l) @ ''</p>'') ls) @ r))
     = concat ls @ shown_text (text_chars False r)"
proof (induction ls)
  case Nil
  show ?case by simp
next
  case (Cons l ls)
  have "text_chars False (concat (map (\<lambda>l. ''<p>'' @ escapeHtml (Some l) @ ''</p>'') (l # ls)) @ r)
      = serialize_text l @ text_chars False
          (concat (map (\<lambda>l. ''<p>'' @ escapeHtml (Some l) @ ''</p>'') ls) @ r)"
    using text_chars_paragraph[of l "concat (map (\<lambda>l. ''<p>'' @ escapeHtml (Some l) @ ''</p>'') ls) @ r"]
    by (simp add: escapeHtml_def textContent_of_def)
  then show ?case using Cons by (simp only: shown_text_serialize_append) simp
qed

lemma paragraphs_aux:
  "concat (map (\<lambda>p. if trim p \<noteq> [] then g (trim p) else []) ps)
     = concat (map g (filter (\<lambda>l. l \<noteq> []) (map trim ps)))"
  by (induction ps) simp_all

lemma paragraphs_lines:
  "paragraphs c = concat (map (\<lambda>l. ''<p>'' @ escapeHtml (Some l) @ ''</p>'') (content_lines c))"
  unfolding paragraphs_def content_lines_def by (rule paragraphs_aux)

lemma paragraphs_empty: "(paragraphs c = []) = (content_lines c = [])"
  unfolding paragraphs_lines by (cases "content_lines c") simp_all

lemma openArticle_content:
  assumes "fst (openArticle a s) = Done"
  shows "\<exists>c. (if full_content a = None \<or> full_content a = Some [] then summary a
               else full_content a) = Some c
     \<and> modalContent (snd (openArticle a s)) =
         (if content_lines c = [] then ''<p>No content available.</p>''
          else concat (map (\<lambda>l. ''<p>'' @ escapeHtml (Some l) @ ''</p>'') (content_lines c)))
     \<and> shown_text (text_of (modalContent (snd (openArticle a s)))) =
         (if content_lines c = [] then ''No content available.'' else concat (content_lines c))"
proof -
  from openArticle_modal(3)[OF assms] obtain c where c: "content_of a = Some c"
    and m: "modalContent (snd (openArticle a s)) =
           (if paragraphs c = [] then ''<p>No content available.</p>'' else paragraphs c)"
    by blast
  have 1: "(if full_content a = None \<or> full_content a = Some [] then summary a
               else full_content a) = Some c"
    using c by (auto simp: content_of_def split: option.splits if_splits)
  have 2: "modalContent (snd (openArticle a s)) =
         (if content_lines c = [] then ''<p>No content available.</p>''
          else concat (map (\<lambda>l. ''<p>'' @ escapeHtml (Some l) @ ''</p>'') (content_lines c)))"
    unfolding m paragraphs_empty by (simp add: paragraphs_lines)
  have 3: "shown_text (text_of (modalContent (snd (openArticle a s)))) =
         (if content_lines c = [] then ''No content available.'' else concat (content_lines c))"
  proof (cases "content_lines c = []")
    case True
    then show ?thesis unfolding 2 by (simp add: text_of_def)
  next
    case False
    then show ?thesis
      unfolding 2 text_of_def
      using text_of_paragraphs[of "content_lines c" "[]"] by simp
  qed
  from 1 2 3 show ?thesis by blast
qed

lemma openSectionEmail_text:
  assumes "fst (openSectionEmail a s) = Done"
  shows "shown_text (text_of (modalContent (snd (openSectionEmail a s)))) = textContent_of (snippet a)"
proof -
  have "shown_text (text_chars False
      (concat (map (\<lambda>l. ''<p>'' @ escapeHtml (Some l) @ ''</p>'') [textContent_of (snippet a)]) @ []))
     = concat [textContent_of (snippet a)] @ shown_text (text_chars False [])"
    by (rule text_of_paragraphs)
  then show ?thesis
    by (simp add: openSectionEmail_modal(3)[OF assms] text_of_def escapeHtml_def textContent_of_def)
qed

section \<open>The claims\<close>

subsection \<open>C9: opening the overlay and closing it again\<close>

text \<open>
  Claim C9. For every record and every page, \<^verbatim>\<open>openArticle\<close> or \<^verbatim>\<open>openSectionEmail\<close>
  followed by \<^verbatim>\<open>closeModal\<close> leaves the body's overflow at its default, so the page
  scrolls; \<^verbatim>\<open>closeModal\<close> never throws. The two openers complete exactly on the records
  that carry the tag the label is made from (and, for an article, a content), and when
  they complete the overflow is \<open>hidden\<close>.
\<close>

theorem open_close_scrollable:
  "body_overflow (snd (closeModal (snd (openArticle a s)))) = []
   \<and> body_overflow (snd (closeModal (snd (openSectionEmail a s)))) = []
   \<and> scrollable (snd (closeModal (snd (openArticle a s))))
   \<and> scrollable (snd (closeModal (snd (openSectionEmail a s))))
   \<and> fst (closeModal s) = Done
   \<and> (fst (openArticle a s) = Done) = (category a \<noteq> None \<and> content_of a \<noteq> None)
   \<and> (fst (openSectionEmail a s) = Done) = (type a \<noteq> None)
   \<and> (fst (openArticle a s) = Done \<longrightarrow> body_overflow (snd (openArticle a s)) = ''hidden'')
   \<and> (fst (openSectionEmail a s) = Done \<longrightarrow>
        body_overflow (snd (openSectionEmail a s)) = ''hidden'')"
proof -
  have c: "closeModal s' = (Done, s'\<lparr>articleModal_active := False, body_overflow := []\<rparr>)" for s'
    by (simp add: closeModal_def)
  show ?thesis
    using openArticle_modal(4)[of a s] openSectionEmail_modal(4)[of a s]
    by (simp add: c scrollable_def openArticle_Done openSectionEmail_Done)
qed

theorem open_close_scrollable_witness:
  "fst (openArticle script_article shipped_page) = Done
   \<and> body_overflow (snd (openArticle script_article shipped_page)) = ''hidden''
   \<and> scrollable (snd (closeModal (snd (openArticle script_article shipped_page))))
   \<and> fst (openSectionEmail script_article shipped_page) = Done
   \<and> body_overflow (snd (openSectionEmail script_article shipped_page)) = ''hidden''
   \<and> scrollable (snd (closeModal (snd (openSectionEmail script_article shipped_page))))"
proof -
  have 1: "category script_article \<noteq> None" "content_of script_article \<noteq> None"
    "type script_article \<noteq> None"
    by (simp_all add: script_article_def content_of_def)
  show ?thesis
    using open_close_scrollable[of script_article shipped_page] 1 by simp
qed

subsection \<open>C5: a refresh that fails\<close>

text \<open>
  Claim C5. When the request of \<^verbatim>\<open>refreshEmails\<close> is rejected or answered with
  \<^verbatim>\<open>success: false\<close>, the handler completes and the page afterwards is the page before
  with the request logged and the toast showing the error: the snapshot \<open>emailsData\<close> and
  every other field are as they were.
\<close>

theorem refresh_failure_keeps_snapshot:
  assumes "failed resp"
  shows "refreshEmails resp s =
     (Done, s\<lparr>requests := requests s @ [post ''/refresh''],
              toast_classList := [''toast'', ''error'', ''show''],
              toastIcon_className := ''toast-icon fas fa-exclamation-circle'',
              toastMessage := (case resp of
                  Rejected \<Rightarrow> ''Failed to refresh emails''
                | Resolved r \<Rightarrow> or_else (error r) ''Failed to refresh emails'')\<rparr>)
   \<and> emailsData (snd (refreshEmails resp s)) = emailsData s"
proof (cases resp)
  case Rejected
  then show ?thesis
    by (simp add: refreshEmails_def try_catch_def showToast_def fetch_def await_def
        classList_add_def)
next
  case (Resolved r)
  with assms have "\<not> success r" by (simp add: failed_def)
  with Resolved show ?thesis
    by (simp add: refreshEmails_def try_catch_def showToast_def fetch_def await_def
        classList_add_def)
qed

theorem refresh_failure_keeps_snapshot_witness:
  "failed refused \<and> failed Rejected
   \<and> emailsData loaded_page = Some one_job
   \<and> emailsData (snd (refreshEmails refused loaded_page)) = Some one_job
   \<and> emailsData (snd (refreshEmails Rejected loaded_page)) = Some one_job
   \<and> toastMessage (snd (refreshEmails refused loaded_page)) = ''backend down''
   \<and> toastMessage (snd (refreshEmails Rejected loaded_page)) = ''Failed to refresh emails''"
proof -
  have f: "failed refused" "failed Rejected" by (simp_all add: failed_def refused_def)
  have e: "emailsData loaded_page = Some one_job"
    by code_simp
  show ?thesis
    using f e refresh_failure_keeps_snapshot[OF f(1), of loaded_page]
      refresh_failure_keeps_snapshot[OF f(2), of loaded_page]
    by (simp add: refused_def or_else_def)
qed

subsection \<open>C8: the requests of refresh and process\<close>

lemma refreshEmails_requests:
  "requests (snd (refreshEmails resp s)) = requests s @ [post ''/refresh'']"
proof -
  define s2 where "s2 = snd (steps [showToast ''Refreshing emails...'' ''info'', fetch (post ''/refresh'')] s)"
  define B where "B = await resp (\<lambda>r.
                 if success r then
                   steps [lift (\<lambda>s. s\<lparr>emailsData := data r\<rparr>), updateUI, showEmails,
                          showToast ''Emails refreshed successfully!'' ''success'']
                 else showToast (or_else (error r) ''Failed to refresh emails'') ''error'')"
  define H where "H = (\<lambda>e::error. showToast ''Failed to refresh emails'' ''error'')"
  have r2: "requests s2 = requests s @ [post ''/refresh'']"
    by (simp add: s2_def showToast_def fetch_def)
  have "refreshEmails resp s = try_catch B H s2"
    unfolding refreshEmails_def B_def [symmetric] H_def [symmetric]
    by (simp add: try_catch_def s2_def showToast_def fetch_def)
  moreover have "preserves requests B"
    unfolding B_def
    by (rule preserves_await)
       (auto intro!: preserves_and_then preserves_lift preserves_requests_showToast
          preserves_requests_updateUI preserves_requests_showEmails)
  then have "preserves requests (try_catch B H)"
    by (rule preserves_try_catch) (simp add: H_def preserves_requests_showToast)
  ultimately show ?thesis using r2 by (simp add: preserves_def)
qed

lemma processEmails_requests:
  "requests (snd (processEmails resp s)) =
     requests s @ (if emailsGrid s = None then [] else [post ''/process-emails''])"
proof (cases "emailsGrid s")
  case None
  define s1 where "s1 = s\<lparr>loadingState_display := ''flex'', emptyState_display := ''none''\<rparr>"
  define H where "H = steps [showToast ''Failed to process emails'' ''error'', showEmpty]"
  have "showLoading s = (Threw TypeError, s1)"
    using None by (simp add: showLoading_eq s1_def)
  then have "processEmails resp s = H s1"
    by (simp add: processEmails_def try_catch_def H_def and_then_Threw)
  moreover have "preserves requests H"
    unfolding H_def
    by (auto intro!: preserves_and_then preserves_requests_showToast preserves_requests_showEmpty)
  ultimately show ?thesis using None by (simp add: preserves_def s1_def)
next
  case (Some g)
  define s1 where "s1 = s\<lparr>loadingState_display := ''flex'', emptyState_display := ''none'',
                           emailsGrid := Some (g\<lparr>grid_display := ''none''\<rparr>)\<rparr>"
  define s2 where "s2 = snd (steps [showToast ''Processing emails... This may take a few minutes'' ''info'',
      fetch (post ''/process-emails'')] s1)"
  define B where "B = await resp (\<lambda>r.
                 if success r then
                   steps [lift (\<lambda>s. s\<lparr>emailsData := data r\<rparr>), updateUI, showEmails,
                          showToast ''Emails processed successfully!'' ''success'']
                 else
                   steps [showToast (or_else (error r) ''Failed to process emails'') ''error'',
                          showEmpty])"
  define H where "H = (\<lambda>e::error. steps [showToast ''Failed to process emails'' ''error'', showEmpty])"
  have r2: "requests s2 = requests s @ [post ''/process-emails'']"
    by (simp add: s2_def s1_def showToast_def fetch_def)
  have l: "showLoading s = (Done, s1)"
    using Some by (simp add: showLoading_eq s1_def)
  have "processEmails resp s = try_catch B H s2"
    unfolding processEmails_def B_def [symmetric] H_def [symmetric]
    by (simp add: try_catch_def s2_def and_then_Done[where c=showLoading, OF l] showToast_def fetch_def)
  moreover have "preserves requests B"
    unfolding B_def
    by (rule preserves_await)
       (auto intro!: preserves_and_then preserves_lift preserves_requests_showToast
          preserves_requests_updateUI preserves_requests_showEmails preserves_requests_showEmpty)
  then have "preserves requests (try_catch B H)"
    by (rule preserves_try_catch)
       (auto simp: H_def intro!: preserves_and_then preserves_requests_showToast preserves_requests_showEmpty)
  ultimately show ?thesis using r2 Some by (simp add: preserves_def)
qed

text \<open>
  Claim C8. \<^verbatim>\<open>refreshEmails\<close> issues exactly one request and \<^verbatim>\<open>processEmails\<close> at most one
  (none when \<^verbatim>\<open>showLoading\<close> throws before the \<^verbatim>\<open>fetch\<close>); each is a POST whose JSON body
  is the object with \<open>query\<close> \<open>newer_than:7d\<close> and \<open>max_results\<close> 50.
\<close>

theorem post_requests:
  "requests (snd (refreshEmails resp s)) = requests s @ [post ''/refresh'']
   \<and> requests (snd (processEmails resp s)) =
       requests s @ (if emailsGrid s = None then [] else [post ''/process-emails''])
   \<and> http_method (post path) = ''POST''
   \<and> body (post path) =
       Some (JObject [(''query'', JString ''newer_than:7d''), (''max_results'', JNumber 50)])
   \<and> url (post path) = ''http://localhost:5002/api'' @ path"
proof (intro conjI)
  show "requests (snd (refreshEmails resp s)) = requests s @ [post ''/refresh'']"
    by (rule refreshEmails_requests)
  show "requests (snd (processEmails resp s)) =
       requests s @ (if emailsGrid s = None then [] else [post ''/process-emails''])"
    by (rule processEmails_requests)
  show "http_method (post path) = ''POST''"
    by (simp add: post_def)
  show "body (post path) =
       Some (JObject [(''query'', JString ''newer_than:7d''), (''max_results'', JNumber 50)])"
    by (simp add: post_def post_body_def)
  show "url (post path) = ''http://localhost:5002/api'' @ path"
    by (simp add: post_def apiBase_def)
qed

subsection \<open>C4: the handlers on the shipped page\<close>

lemma emailsGrid_shipped: "emailsGrid (shipped sd ld) = None"
  by (simp add: shipped_def)

lemma showEmpty_eq:
  "showEmpty s =
     (case emailsGrid s of
        None \<Rightarrow> (Threw TypeError, s\<lparr>loadingState_display := ''none'', emptyState_display := ''flex''\<rparr>)
      | Some g \<Rightarrow> (Done, s\<lparr>loadingState_display := ''none'', emptyState_display := ''flex'',
                           emailsGrid := Some (g\<lparr>grid_display := ''none''\<rparr>)\<rparr>))"
  by (simp add: showEmpty_def emailsGrid_set_display_def split: option.splits)

lemma loadEmails_without_grid:
  assumes "emailsGrid s = None"
  shows "loadEmails resp s =
     (Threw TypeError,
      s\<lparr>loadingState_display := ''none'', emptyState_display := ''flex'',
        toast_classList := [''toast'', ''error'', ''show''],
        toastIcon_className := ''toast-icon fas fa-exclamation-circle'',
        toastMessage := ''Failed to load emails''\<rparr>)"
proof -
  have "showLoading s =
      (Threw TypeError, s\<lparr>loadingState_display := ''flex'', emptyState_display := ''none''\<rparr>)"
    using assms by (simp add: showLoading_eq)
  then show ?thesis
    using assms
    by (simp add: loadEmails_def try_catch_def and_then_Threw showToast_def classList_add_def
        and_then_def showEmpty_eq)
qed

lemma processEmails_without_grid:
  assumes "emailsGrid s = None"
  shows "processEmails resp s =
     (Threw TypeError,
      s\<lparr>loadingState_display := ''none'', emptyState_display := ''flex'',
        toast_classList := [''toast'', ''error'', ''show''],
        toastIcon_className := ''toast-icon fas fa-exclamation-circle'',
        toastMessage := ''Failed to process emails''\<rparr>)"
proof -
  have "showLoading s =
      (Threw TypeError, s\<lparr>loadingState_display := ''flex'', emptyState_display := ''none''\<rparr>)"
    using assms by (simp add: showLoading_eq)
  then show ?thesis
    using assms
    by (simp add: processEmails_def try_catch_def and_then_Threw showToast_def classList_add_def
        and_then_def showEmpty_eq)
qed

lemma refreshEmails_Done: "fst (refreshEmails resp s) = Done"
  unfolding refreshEmails_def by (rule try_catch_Done) (simp add: showToast_def)

text \<open>
  Claim C4. On the page as shipped, which has no element with the id \<^verbatim>\<open>emailsGrid\<close>,
  \<^verbatim>\<open>loadEmails\<close> and \<^verbatim>\<open>processEmails\<close> end with a \<^verbatim>\<open>TypeError\<close> that leaves the handler,
  whatever the backend answers: \<^verbatim>\<open>showLoading\<close> throws before the request is sent, and
  \<^verbatim>\<open>showEmpty\<close> throws again inside the \<^verbatim>\<open>catch\<close> block, after it has hidden the loading
  indicator and shown the empty state. \<^verbatim>\<open>refreshEmails\<close>, whose \<^verbatim>\<open>catch\<close> block only shows a
  toast, completes on every page.
\<close>

theorem handlers_throw_on_shipped_page:
  "fst (loadEmails resp (shipped sd ld)) = Threw TypeError
   \<and> fst (processEmails resp (shipped sd ld)) = Threw TypeError
   \<and> requests (snd (loadEmails resp (shipped sd ld))) = []
   \<and> requests (snd (processEmails resp (shipped sd ld))) = []
   \<and> emptyState_display (snd (loadEmails resp (shipped sd ld))) = ''flex''
   \<and> loadingState_display (snd (loadEmails resp (shipped sd ld))) = ''none''
   \<and> fst (refreshEmails resp s) = Done"
  by (simp add: loadEmails_without_grid processEmails_without_grid emailsGrid_shipped
      refreshEmails_Done)
     (simp add: shipped_def)

subsection \<open>C3: a load that fails\<close>

lemma loadEmails_refused:
  assumes "emailsGrid s = Some g" "\<not> success r"
  shows "loadEmails (Resolved r) s =
     (Done,
      s\<lparr>requests := requests s
           @ [\<lparr>url = apiBase @ ''/emails'', http_method = ''GET'', headers = [], body = None\<rparr>],
        loadingState_display := ''none'', emptyState_display := ''flex'',
        emailsGrid := Some (g\<lparr>grid_display := ''none''\<rparr>)\<rparr>)"
proof -
  have "showLoading s = (Done, s\<lparr>loadingState_display := ''flex'', emptyState_display := ''none'',
                           emailsGrid := Some (g\<lparr>grid_display := ''none''\<rparr>)\<rparr>)"
    using assms(1) by (simp add: showLoading_eq)
  then show ?thesis
    using assms
    by (simp add: loadEmails_def try_catch_def and_then_Done[where c=showLoading] fetch_def
        await_def showEmpty_eq)
qed

text \<open>
  The \<^verbatim>\<open>else\<close> branch of \<^verbatim>\<open>loadEmails\<close> calls \<^verbatim>\<open>showEmpty\<close> and nothing else. On a page that
  had the element \<^verbatim>\<open>#emailsGrid\<close>, a load answered with \<^verbatim>\<open>success: false\<close> would therefore
  show the empty state and leave the toast as it was, while the rejected load, and
  \<^verbatim>\<open>processEmails\<close> for the same answer, would show the error toast. The page as shipped
  has no such element and no statement of the script creates one.
\<close>

lemma loadEmails_on_page_with_grid:
  "fst (loadEmails refused page_with_grid) = Done
   \<and> emptyState_display (snd (loadEmails refused page_with_grid)) = ''flex''
   \<and> toast_classList page_with_grid = [''toast'']
   \<and> toast_classList (snd (loadEmails refused page_with_grid)) = [''toast'']
   \<and> toastMessage (snd (loadEmails refused page_with_grid)) = []
   \<and> toast_classList (snd (loadEmails Rejected page_with_grid)) = [''toast'', ''error'', ''show'']
   \<and> toastMessage (snd (loadEmails Rejected page_with_grid)) = ''Failed to load emails''
   \<and> toast_classList (snd (processEmails refused page_with_grid)) = [''toast'', ''error'', ''show'']
   \<and> toastMessage (snd (processEmails refused page_with_grid)) = ''backend down''"
  by code_simp


subsection \<open>C7: the layout class\<close>

lemma toggleView_without_grid: "emailsGrid (snd (toggleView view (s\<lparr>emailsGrid := None\<rparr>))) = None"
proof -
  have "preserves emailsGrid (and_then displayEmails (showToast m k))" for m k
    unfolding displayEmails_def
    by (intro preserves_and_then preserves_displayCurrentSection preserves_showToast) simp_all
  then show ?thesis
    by (simp add: toggleView_def preserves_def)
qed

text \<open>
  Claim C7. \<^verbatim>\<open>toggleView\<close> with \<open>list\<close> on the shipped page completes, sets \<open>currentView\<close>,
  marks the list button and shows its toast, and changes no layout class: the element it
  would give the class to, \<^verbatim>\<open>#emailsGrid\<close>, is not there, on this page or on any page
  without it. On a page that has the element the class becomes \<open>emails-list\<close>.
\<close>

theorem toggleView_no_layout_class:
  "fst (toggleView ''list'' shipped_page) = Done
   \<and> currentView (snd (toggleView ''list'' shipped_page)) = ''list''
   \<and> viewBtn_list_active (snd (toggleView ''list'' shipped_page))
   \<and> toastMessage (snd (toggleView ''list'' shipped_page)) = ''Switched to list view''
   \<and> emailsGrid (snd (toggleView ''list'' shipped_page)) = None
   \<and> emailsGrid (snd (toggleView view (s\<lparr>emailsGrid := None\<rparr>))) = None
   \<and> emailsGrid (snd (toggleView ''list'' page_with_grid)) =
       Some \<lparr>grid_display = ''none'', grid_className = ''emails-list''\<rparr>"
proof -
  have "fst (toggleView ''list'' shipped_page) = Done
   \<and> currentView (snd (toggleView ''list'' shipped_page)) = ''list''
   \<and> viewBtn_list_active (snd (toggleView ''list'' shipped_page))
   \<and> toastMessage (snd (toggleView ''list'' shipped_page)) = ''Switched to list view''
   \<and> emailsGrid (snd (toggleView ''list'' shipped_page)) = None
   \<and> emailsGrid (snd (toggleView ''list'' page_with_grid)) =
       Some \<lparr>grid_display = ''none'', grid_className = ''emails-list''\<rparr>"
    by code_simp
  then show ?thesis using toggleView_without_grid by simp
qed

subsection \<open>C1: counts after a re-render\<close>

text \<open>
  For a section that is a key of the snapshot the tab is right after \<^verbatim>\<open>updateUI\<close>
  (\<open>updateUI_tabCount_present\<close>); a tab whose section is no key keeps its count
  (\<open>updateUI_tabCount_absent\<close>). The second case at a concrete run:
\<close>

text \<open>
  Claim C1. A load delivers one job and the "Job Alerts" tab shows 1. A refresh then
  delivers a snapshot without a \<open>jobs\<close> key, completes and becomes the snapshot held; the
  tab still shows 1, while the listing of that section is the placeholder for an empty
  section and the "All Articles" button follows the new snapshot. The same happens on
  the shipped page with two refreshes.
\<close>

theorem stale_tab_count:
  "tabCount loaded_page Jobs = ''1''
   \<and> fst (refreshEmails (ok no_jobs) loaded_page) = Done
   \<and> emailsData refreshed_page = Some no_jobs
   \<and> sections no_jobs = Some [(''articles'', [script_article])]
   \<and> tabCount refreshed_page Jobs = ''1''
   \<and> tabCount refreshed_page Articles = ''1''
   \<and> allButton_count refreshed_page = ''1''
   \<and> articlesList (snd (switchSection ''jobs'' refreshed_page)) = [EmptyCategory ''No jobs found.'']
   \<and> tabCount (snd (refreshEmails (ok no_jobs) (snd (refreshEmails (ok one_job) shipped_page)))) Jobs
       = ''1''"
  by code_simp

subsection \<open>C6: switching the section\<close>

text \<open>
  Claim C6, as stated, fails: with the category \<open>technology\<close> chosen, a click on the
  "Job Alerts" tab leaves \<open>currentCategory\<close> at \<open>technology\<close>, on a page with the grid
  and on the shipped page alike.
\<close>

theorem switchSection_category_counterexample:
  "currentCategory (snd (filterByCategory ''technology'' loaded_page)) = ''technology''
   \<and> currentCategory
        (snd (switchSection ''jobs'' (snd (filterByCategory ''technology'' loaded_page))))
       \<noteq> ''all''
   \<and> currentCategory
        (snd (switchSection ''jobs''
           (snd (filterByCategory ''technology''
              (snd (refreshEmails (ok one_job) shipped_page))))))
       \<noteq> ''all''"
  by code_simp

text \<open>
  Claim C6, amended. \<^verbatim>\<open>switchSection\<close> sets \<open>currentSection\<close> to its argument; it sets
  \<open>currentCategory\<close> to \<open>all\<close> when the argument is \<open>articles\<close> and leaves it as it was
  otherwise; and for each of the five sections that have a tab, the sidebar is visible
  afterwards exactly when the section is \<open>articles\<close>. All three hold of the page the call
  leaves behind whether it completes or throws.
\<close>

theorem switchSection_state:
  "currentSection (snd (switchSection sec s)) = sec
   \<and> currentCategory (snd (switchSection sec s)) =
       (if sec = ''articles'' then ''all'' else currentCategory s)
   \<and> (tab_of sec \<noteq> None \<longrightarrow>
        sidebar_visible (snd (switchSection sec s)) = (sec = ''articles''))"
proof (cases "tab_of sec")
  case None
  then have "sec \<noteq> ''articles''" by (auto simp: tab_of_def)
  with None show ?thesis by (simp add: switchSection_eq)
next
  case (Some t)
  have d: "preserves currentSection displayCurrentSection"
    "preserves currentCategory displayCurrentSection"
    "preserves articlesSidebar_display displayCurrentSection"
    by (rule preserves_displayCurrentSection, simp)+
  have u: "preserves currentSection updateCategoryFilters"
    "preserves currentCategory updateCategoryFilters"
    "preserves articlesSidebar_display updateCategoryFilters"
    by (rule preserves_updateCategoryFilters, simp)+
  note ud = preserves_and_then[OF u(1) d(1)] preserves_and_then[OF u(2) d(2)]
    preserves_and_then[OF u(3) d(3)]
  show ?thesis
  proof (cases "sec = ''articles''")
    case True
    with Some ud show ?thesis
      by (simp add: switchSection_eq sidebar_visible_def preserves_def)
  next
    case False
    with Some d show ?thesis
      by (simp add: switchSection_eq sidebar_visible_def preserves_def)
  qed
qed

theorem switchSection_state_witness:
  "tab_of ''jobs'' \<noteq> None
   \<and> \<not> sidebar_visible (snd (switchSection ''jobs'' loaded_page))
   \<and> currentSection (snd (switchSection ''jobs'' loaded_page)) = ''jobs''
   \<and> tab_of ''articles'' \<noteq> None
   \<and> sidebar_visible (snd (switchSection ''articles'' (snd (switchSection ''jobs'' loaded_page))))
   \<and> currentCategory (snd (switchSection ''articles'' (snd (switchSection ''jobs'' loaded_page))))
       = ''all''"
proof -
  have 1: "tab_of ''jobs'' \<noteq> None" "tab_of ''articles'' \<noteq> None" by (simp_all add: tab_of_def)
  show ?thesis
    using 1 switchSection_state[of "''jobs''" loaded_page]
      switchSection_state[of "''articles''" "snd (switchSection ''jobs'' loaded_page)"]
    by simp
qed

subsection \<open>C10: the definition of the category filter that runs\<close>




subsection \<open>C2: the text fields in the generated markup\<close>

text \<open>
  Claim C2. What \<^verbatim>\<open>escapeHtml\<close> returns contains neither \<open><\<close> nor \<open>>\<close> and is shown by a
  browser as the text it was given. A card's markup is the template with the escaped
  title, sender and summary (snippet for a section card) in its slots, and its tags are
  those of the card with these three fields empty. In the overlay the title and the
  sender are set as text, so that their markup is the escaped text, and the content
  consists of \<open>p\<close> elements around escaped text: its tags are \<open><p>\<close> and \<open></p>\<close> only.
  For an article the content is \<^verbatim>\<open>full_content\<close>, or \<^verbatim>\<open>summary\<close> when that is missing or
  empty; each of its non-blank lines, trimmed and escaped, becomes one \<open>p\<close> element, and
  the text a browser shows for the content is these lines one after the other (the
  sentence "No content available." when there is none). For a section e-mail the text
  shown is the snippet.
\<close>

theorem text_fields_escaped:
  "CHR ''<'' \<notin> set (escapeHtml x) \<and> CHR ''>'' \<notin> set (escapeHtml x)
   \<and> shown_text (escapeHtml x) = textContent_of x
   \<and> (createArticleCard s a = Inr n \<longrightarrow>
        markup_of n =
          card_markup (escapeHtml (title a)) (escapeHtml (sender a)) (shortDate s (date a))
            (str (category a)) (formatCategoryName (str (category a))) (escapeHtml (summary a))
        \<and> tags (markup_of n) =
          tags (card_markup [] [] (shortDate s (date a))
            (str (category a)) (formatCategoryName (str (category a))) []))
   \<and> (createSectionEmailCard s a = Inr n' \<longrightarrow>
        markup_of n' =
          card_markup (escapeHtml (title a)) (escapeHtml (sender a)) (shortDate s (date a))
            (str (type a)) (formatSectionName (str (type a))) (escapeHtml (snippet a))
        \<and> tags (markup_of n') =
          tags (card_markup [] [] (shortDate s (date a))
            (str (type a)) (formatSectionName (str (type a))) []))
   \<and> (fst (openArticle a s) = Done \<longrightarrow>
        serialize_text (modalTitle (snd (openArticle a s))) = escapeHtml (title a)
        \<and> serialize_text (modalSender (snd (openArticle a s))) =
            ''From: '' @ escapeHtml (Some (str (sender a)))
        \<and> (\<exists>k. tags (modalContent (snd (openArticle a s))) = concat (replicate k ''<p></p>''))
        \<and> (\<exists>c. (if full_content a = None \<or> full_content a = Some [] then summary a
                  else full_content a) = Some c
              \<and> modalContent (snd (openArticle a s)) =
                  (if content_lines c = [] then ''<p>No content available.</p>''
                   else concat (map (\<lambda>l. ''<p>'' @ escapeHtml (Some l) @ ''</p>'')
                                  (content_lines c)))
              \<and> shown_text (text_of (modalContent (snd (openArticle a s)))) =
                  (if content_lines c = [] then ''No content available.''
                   else concat (content_lines c))))
   \<and> (fst (openSectionEmail a s) = Done \<longrightarrow>
        serialize_text (modalTitle (snd (openSectionEmail a s))) = escapeHtml (title a)
        \<and> serialize_text (modalSender (snd (openSectionEmail a s))) =
            ''From: '' @ escapeHtml (Some (str (sender a)))
        \<and> modalContent (snd (openSectionEmail a s)) = ''<p>'' @ escapeHtml (snippet a) @ ''</p>''
        \<and> tags (modalContent (snd (openSectionEmail a s))) = ''<p></p>''
        \<and> shown_text (text_of (modalContent (snd (openSectionEmail a s)))) =
            textContent_of (snippet a))"
proof (intro conjI impI)
  show "CHR ''<'' \<notin> set (escapeHtml x)" "CHR ''>'' \<notin> set (escapeHtml x)"
    by (rule escapeHtml_no_angle)+
  show "shown_text (escapeHtml x) = textContent_of x"
    by (simp add: escapeHtml_def shown_text_serialize_text)
next
  assume c: "createArticleCard s a = Inr n"
  show m: "markup_of n =
          card_markup (escapeHtml (title a)) (escapeHtml (sender a)) (shortDate s (date a))
            (str (category a)) (formatCategoryName (str (category a))) (escapeHtml (summary a))"
    using c by (rule createArticleCard_markup)
  show "tags (markup_of n) =
          tags (card_markup [] [] (shortDate s (date a))
            (str (category a)) (formatCategoryName (str (category a))) [])"
    unfolding m by (rule tags_card_escaped)
next
  assume c: "createSectionEmailCard s a = Inr n'"
  show m: "markup_of n' =
          card_markup (escapeHtml (title a)) (escapeHtml (sender a)) (shortDate s (date a))
            (str (type a)) (formatSectionName (str (type a))) (escapeHtml (snippet a))"
    using c by (rule createSectionEmailCard_markup)
  show "tags (markup_of n') =
          tags (card_markup [] [] (shortDate s (date a))
            (str (type a)) (formatSectionName (str (type a))) [])"
    unfolding m by (rule tags_card_escaped)
next
  assume d: "fst (openArticle a s) = Done"
  show "serialize_text (modalTitle (snd (openArticle a s))) = escapeHtml (title a)"
    by (simp add: openArticle_modal(1)[OF d] escapeHtml_def)
  show "serialize_text (modalSender (snd (openArticle a s))) = ''From: '' @ escapeHtml (Some (str (sender a)))"
    by (simp only: openArticle_modal(2)[OF d] serialize_text_From escapeHtml_def textContent_of_def
        option.case)
  from openArticle_modal(3)[OF d] obtain c where
    "modalContent (snd (openArticle a s)) =
           (if paragraphs c = [] then ''<p>No content available.</p>'' else paragraphs c)"
    by blast
  then show "\<exists>k. tags (modalContent (snd (openArticle a s))) = concat (replicate k ''<p></p>'')"
    using tags_modal_content[of c] by simp
  show "\<exists>c. (if full_content a = None \<or> full_content a = Some [] then summary a
                  else full_content a) = Some c
              \<and> modalContent (snd (openArticle a s)) =
                  (if content_lines c = [] then ''<p>No content available.</p>''
                   else concat (map (\<lambda>l. ''<p>'' @ escapeHtml (Some l) @ ''</p>'')
                                  (content_lines c)))
              \<and> shown_text (text_of (modalContent (snd (openArticle a s)))) =
                  (if content_lines c = [] then ''No content available.''
                   else concat (content_lines c))"
    using d by (rule openArticle_content)
next
  assume d: "fst (openSectionEmail a s) = Done"
  show "serialize_text (modalTitle (snd (openSectionEmail a s))) = escapeHtml (title a)"
    by (simp add: openSectionEmail_modal(1)[OF d] escapeHtml_def)
  show "serialize_text (modalSender (snd (openSectionEmail a s))) = ''From: '' @ escapeHtml (Some (str (sender a)))"
    by (simp only: openSectionEmail_modal(2)[OF d] serialize_text_From escapeHtml_def textContent_of_def
        option.case)
  show "modalContent (snd (openSectionEmail a s)) = ''<p>'' @ escapeHtml (snippet a) @ ''</p>''"
    by (rule openSectionEmail_modal(3)[OF d])
  have "tag_chars False (''<p>'' @ serialize_text (textContent_of (snippet a)) @ ''</p>'' @ []) = ''<p></p>'' @ tag_chars False []"
    by (rule tags_paragraph)
  then show "tags (modalContent (snd (openSectionEmail a s))) = ''<p></p>''"
    by (simp add: openSectionEmail_modal(3)[OF d] tags_def escapeHtml_def)
  show "shown_text (text_of (modalContent (snd (openSectionEmail a s)))) =
            textContent_of (snippet a)"
    using d by (rule openSectionEmail_text)
qed

theorem text_fields_escaped_witness:
  "createArticleCard shipped_page script_article = Inr script_card
   \<and> tags (markup_of script_card) =
        tags (card_markup [] [] ''2024-01-01'' ''technology'' ''Technology'' [])
   \<and> createSectionEmailCard shipped_page script_article = Inr script_section_card
   \<and> tags (markup_of script_section_card) =
        tags (card_markup [] [] ''2024-01-01'' ''jobs'' ''Job Alerts'' [])
   \<and> shown_text (escapeHtml (title script_article)) = ''<script>alert(1)</script>''
   \<and> fst (openArticle script_article shipped_page) = Done
   \<and> serialize_text (modalTitle (snd (openArticle script_article shipped_page)))
        = ''&lt;script&gt;alert(1)&lt;/script&gt;''
   \<and> fst (openSectionEmail script_article shipped_page) = Done
   \<and> modalContent (snd (openSectionEmail script_article shipped_page))
        = ''<p>&lt;b&gt;s&lt;/b&gt;</p>''
   \<and> modalContent (snd (openArticle script_article shipped_page)) = ''<p>a &amp; b</p>''
   \<and> fst (openArticle long_article shipped_page) = Done
   \<and> modalContent (snd (openArticle long_article shipped_page))
        = ''<p>&lt;b&gt;x&lt;/b&gt;</p><p>y &amp; z</p>''
   \<and> shown_text (text_of (modalContent (snd (openArticle long_article shipped_page))))
        = ''<b>x</b>y & z''"
proof -
  note t = text_fields_escaped[of "title script_article" shipped_page script_article
      script_card script_section_card]
  have 1: "createArticleCard shipped_page script_article = Inr script_card" by code_simp
  have 2: "fst (openArticle script_article shipped_page) = Done" by code_simp
  have 3: "shortDate shipped_page (date script_article) = ''2024-01-01''" by code_simp
  have 4: "str (category script_article) = ''technology''" by code_simp
  have 5: "formatCategoryName ''technology'' = ''Technology''" by code_simp
  have 6: "textContent_of (title script_article) = ''<script>alert(1)</script>''" by code_simp
  have 7: "escapeHtml (title script_article) = ''&lt;script&gt;alert(1)&lt;/script&gt;''" by code_simp
  have 8: "createSectionEmailCard shipped_page script_article = Inr script_section_card"
    by code_simp
  have 9: "fst (openSectionEmail script_article shipped_page) = Done" by code_simp
  have 10: "str (type script_article) = ''jobs''" by code_simp
  have 11: "formatSectionName ''jobs'' = ''Job Alerts''" by code_simp
  have 12: "''<p>'' @ escapeHtml (snippet script_article) @ ''</p>'' = ''<p>&lt;b&gt;s&lt;/b&gt;</p>''"
    by code_simp
  from t 1 have "tags (markup_of script_card) =
          tags (card_markup [] [] (shortDate shipped_page (date script_article))
            (str (category script_article)) (formatCategoryName (str (category script_article))) [])"
    by blast
  then have a: "tags (markup_of script_card) =
        tags (card_markup [] [] ''2024-01-01'' ''technology'' ''Technology'' [])"
    by (simp only: 3 4 5)
  from t 8 have "tags (markup_of script_section_card) =
          tags (card_markup [] [] (shortDate shipped_page (date script_article))
            (str (type script_article)) (formatSectionName (str (type script_article))) [])"
    by blast
  then have a': "tags (markup_of script_section_card) =
        tags (card_markup [] [] ''2024-01-01'' ''jobs'' ''Job Alerts'' [])"
    by (simp only: 3 10 11)
  from t have "shown_text (escapeHtml (title script_article)) = textContent_of (title script_article)"
    by blast
  then have b: "shown_text (escapeHtml (title script_article)) = ''<script>alert(1)</script>''"
    by (simp only: 6)
  from t 2 have "serialize_text (modalTitle (snd (openArticle script_article shipped_page)))
      = escapeHtml (title script_article)"
    by blast
  then have c: "serialize_text (modalTitle (snd (openArticle script_article shipped_page)))
        = ''&lt;script&gt;alert(1)&lt;/script&gt;''"
    by (simp only: 7)
  from t 9 have "modalContent (snd (openSectionEmail script_article shipped_page))
      = ''<p>'' @ escapeHtml (snippet script_article) @ ''</p>''"
    by blast
  then have d: "modalContent (snd (openSectionEmail script_article shipped_page))
        = ''<p>&lt;b&gt;s&lt;/b&gt;</p>''"
    by (simp only: 12)
  from t 2 obtain c0 where c0:
    "(if full_content script_article = None \<or> full_content script_article = Some []
      then summary script_article else full_content script_article) = Some c0"
    "modalContent (snd (openArticle script_article shipped_page)) =
       (if content_lines c0 = [] then ''<p>No content available.</p>''
        else concat (map (\<lambda>l. ''<p>'' @ escapeHtml (Some l) @ ''</p>'') (content_lines c0)))"
    by blast
  from c0(1) have "c0 = ''a & b''" by (simp add: script_article_def)
  moreover have "content_lines ''a & b'' = [''a & b'']" by code_simp
  moreover have "escapeHtml (Some ''a & b'') = ''a &amp; b''" by code_simp
  ultimately have e: "modalContent (snd (openArticle script_article shipped_page)) = ''<p>a &amp; b</p>''"
    using c0(2) by simp
  note u = text_fields_escaped[of "title long_article" shipped_page long_article
      script_card script_section_card]
  have 13: "fst (openArticle long_article shipped_page) = Done" by code_simp
  from u 13 obtain c1 where c1:
    "(if full_content long_article = None \<or> full_content long_article = Some []
      then summary long_article else full_content long_article) = Some c1"
    "modalContent (snd (openArticle long_article shipped_page)) =
       (if content_lines c1 = [] then ''<p>No content available.</p>''
        else concat (map (\<lambda>l. ''<p>'' @ escapeHtml (Some l) @ ''</p>'') (content_lines c1)))"
    "shown_text (text_of (modalContent (snd (openArticle long_article shipped_page)))) =
       (if content_lines c1 = [] then ''No content available.'' else concat (content_lines c1))"
    by blast
  from c1(1) have c1v: "c1 = ''  <b>x</b> '' @ [CHR 0x0A, CHR 0x0A] @ '' y & z''"
    by (simp add: long_article_def)
  have l1: "content_lines (''  <b>x</b> '' @ [CHR 0x0A, CHR 0x0A] @ '' y & z'') = [''<b>x</b>'', ''y & z'']"
    by code_simp
  have e1: "escapeHtml (Some ''<b>x</b>'') = ''&lt;b&gt;x&lt;/b&gt;''"
    "escapeHtml (Some ''y & z'') = ''y &amp; z''"
    by code_simp+
  have f: "modalContent (snd (openArticle long_article shipped_page))
        = ''<p>&lt;b&gt;x&lt;/b&gt;</p><p>y &amp; z</p>''"
    using c1(2) unfolding c1v l1 by (simp add: e1)
  have g: "shown_text (text_of (modalContent (snd (openArticle long_article shipped_page))))
        = ''<b>x</b>y & z''"
    using c1(3) unfolding c1v l1 by simp
  from 1 a 8 a' b 2 c 9 d e 13 f g show ?thesis by blast
qed

end
